theory Spec2Isabelle
  imports Complex_Main
begin
section \<open>Python strings and bytes\<close>

text \<open>
  A Python \<open>bytes\<close> value is a list of 8-bit characters. A Python \<open>str\<close> is kept as
  the list of bytes of its UTF-8 encoding, so \<open>.encode("utf-8")\<close> is the identity and
  \<open>.decode("utf-8", errors="replace")\<close> is the function \<open>decode_utf8_replace\<close> below.
\<close>

type_synonym bytes = "char list"

definition BSL :: char where "BSL = CHR 0x5C"
definition NL :: char where "NL = CHR 0x0A"
definition CR :: char where "CR = CHR 0x0D"
definition TAB :: char where "TAB = CHR 0x09"
definition NUL :: char where "NUL = CHR 0x00"
definition SQ :: char where "SQ = CHR 0x27"
definition DQ :: char where "DQ = CHR 0x22"

text \<open>The UTF-8 bytes of the em dash (U+2014) that some messages of the source contain.\<close>

definition EM_DASH :: string where "EM_DASH = [CHR 0xE2, CHR 0x80, CHR 0x94]"

text \<open>\<open>sep.join(parts)\<close>.\<close>

fun join :: "string \<Rightarrow> string list \<Rightarrow> string" where
  "join sep [] = []"
| "join sep [x] = x"
| "join sep (x # y # ys) = x @ sep @ join sep (y # ys)"

subsection \<open>The format specification \<open>06d\<close>\<close>

definition digit_char :: "nat \<Rightarrow> char" where
  "digit_char d = char_of (48 + d)"

fun dec_digits :: "nat \<Rightarrow> string" where
  "dec_digits n = (if n < 10 then [digit_char n] else dec_digits (n div 10) @ [digit_char (n mod 10)])"

declare dec_digits.simps [simp del]

definition zero_pad :: "nat \<Rightarrow> string \<Rightarrow> string" where
  "zero_pad w s = replicate (w - length s) (CHR ''0'') @ s"

text \<open>
  \<open>f"{idx:06d}"\<close>: the sign, if any, comes first and counts towards the width of six;
  zeros fill the space between the sign and the digits.
\<close>

definition format_06d :: "int \<Rightarrow> string" where
  "format_06d idx =
     (if idx < 0 then CHR ''-'' # zero_pad 5 (dec_digits (nat (- idx)))
      else zero_pad 6 (dec_digits (nat idx)))"

section \<open>The dump manifest\<close>

text \<open>
  The dataclass \<open>DumpManifest\<close> (dump.py). Its fields carry the prefix \<open>mf_\<close>, since
  the settings and the table descriptor have fields of the same names.
\<close>

record DumpManifest =
  mf_connection_name :: string
  mf_database :: string
  mf_table :: string
  mf_schema :: string
  mf_columns :: "string list"
  mf_pk_columns :: "string list"
  mf_chunk_rows :: int
  mf_total_rows :: int
  mf_chunks_completed :: int
  mf_chunks_total :: int
  mf_started_at :: string
  mf_finished_at :: "string option"
  mf_compressed :: bool
  mf_dump_mode :: string
  mf_has_schema :: bool

text \<open>\<open>DumpManifest.chunk_filename\<close> (dump.py).\<close>

definition chunk_filename :: "DumpManifest \<Rightarrow> int \<Rightarrow> string" where
  "chunk_filename self idx =
     (let ext = (if mf_dump_mode self = ''insert''
                 then (if mf_compressed self then ''.sql.gz'' else ''.sql'')
                 else (if mf_compressed self then ''.csv.gz'' else ''.csv''))
      in mf_table self @ ''_chunk_'' @ format_06d idx @ ext)"

text \<open>The file name \<open>restore_table\<close> builds inline for each chunk (restore.py).\<close>

definition restore_chunk_name :: "string \<Rightarrow> string \<Rightarrow> bool \<Rightarrow> int \<Rightarrow> string" where
  "restore_chunk_name table_name dump_mode' compressed' chunk_idx =
     (let ext = (if dump_mode' = ''insert''
                 then (if compressed' then ''.sql.gz'' else ''.sql'')
                 else (if compressed' then ''.csv.gz'' else ''.csv''))
      in table_name @ ''_chunk_'' @ format_06d chunk_idx @ ext)"

section \<open>Settings and table descriptor\<close>

text \<open>The dataclass \<open>DumpSettings\<close> (config.py).\<close>

record DumpSettings =
  dump_dir :: string
  chunk_rows :: int
  compress :: bool
  compress_level :: int
  dump_mode :: string
  dump_schema :: bool
  insert_batch_size :: int
  use_transactions :: bool
  truncate_before_restore :: bool
  drop_on_restore :: bool
  recreate_schema :: bool
  disable_indexes_on_restore :: bool
  max_retries :: int
  retry_backoff :: int

text \<open>The dataclass \<open>TableInfo\<close> (db.py), fields prefixed with \<open>ti_\<close>.\<close>

record TableInfo =
  ti_schema :: string
  ti_name :: string
  ti_row_estimate :: int
  ti_size_bytes :: int
  ti_total_size_bytes :: int
  ti_columns :: "string list"
  ti_pk_columns :: "string list"

section \<open>Operations on bytes\<close>

text \<open>\<open>b.split(sep)\<close> for a separator of one byte: the result is never empty.\<close>

fun split_on :: "char \<Rightarrow> bytes \<Rightarrow> bytes list" where
  "split_on sep [] = [[]]"
| "split_on sep (c # cs) =
     (if c = sep then [] # split_on sep cs
      else (case split_on sep cs of
              w # ws \<Rightarrow> (c # w) # ws
            | [] \<Rightarrow> [[c]]))"

text \<open>
  \<open>b.replace(old, new)\<close> for a non-empty \<open>old\<close>: the occurrences are found from left to
  right and do not overlap. (Every call in the source has a non-empty \<open>old\<close>.)
\<close>

function bytes_replace :: "bytes \<Rightarrow> bytes \<Rightarrow> bytes \<Rightarrow> bytes" where
  "bytes_replace old new [] = []"
| "bytes_replace old new (c # cs) =
     (if old \<noteq> [] \<and> take (length old) (c # cs) = old
      then new @ bytes_replace old new (drop (length old) (c # cs))
      else c # bytes_replace old new cs)"
  by pat_completeness auto
termination
  by (relation "measure (\<lambda>(old, new, s). length s)") (auto simp: Suc_le_eq)

subsection \<open>Decoding UTF-8 with \<open>errors="replace"\<close>\<close>

text \<open>
  The decoder of the Python runtime, on the representation of a \<open>str\<close> by its UTF-8 bytes:
  a well-formed sequence is kept, and each maximal ill-formed part is replaced by U+FFFD
  (the bytes EF BF BD). The second byte of a sequence is checked against the range its
  lead byte allows, which excludes overlong forms, surrogates and values above U+10FFFF.
\<close>

definition REPLACEMENT :: bytes where
  "REPLACEMENT = [CHR 0xEF, CHR 0xBF, CHR 0xBD]"

definition is_cont :: "char \<Rightarrow> bool" where
  "is_cont c = (0x80 \<le> (of_char c :: nat) \<and> (of_char c :: nat) \<le> 0xBF)"

definition second_ok :: "nat \<Rightarrow> char \<Rightarrow> bool" where
  "second_ok lead c =
     (let n = (of_char c :: nat) in
      if lead = 0xE0 then 0xA0 \<le> n \<and> n \<le> 0xBF
      else if lead = 0xED then 0x80 \<le> n \<and> n \<le> 0x9F
      else if lead = 0xF0 then 0x90 \<le> n \<and> n \<le> 0xBF
      else if lead = 0xF4 then 0x80 \<le> n \<and> n \<le> 0x8F
      else 0x80 \<le> n \<and> n \<le> 0xBF)"

fun decode_utf8_replace :: "bytes \<Rightarrow> string" where
  "decode_utf8_replace [] = []"
| "decode_utf8_replace (b # bs) =
     (let n = (of_char b :: nat) in
      if n < 0x80 then b # decode_utf8_replace bs
      else if n < 0xC2 then REPLACEMENT @ decode_utf8_replace bs
      else if n < 0xE0 then
        (case bs of
           [] \<Rightarrow> REPLACEMENT
         | c1 # r1 \<Rightarrow>
             if is_cont c1 then b # c1 # decode_utf8_replace r1
             else REPLACEMENT @ decode_utf8_replace bs)
      else if n < 0xF0 then
        (case bs of
           [] \<Rightarrow> REPLACEMENT
         | c1 # r1 \<Rightarrow>
             if second_ok n c1 then
               (case r1 of
                  [] \<Rightarrow> REPLACEMENT
                | c2 # r2 \<Rightarrow>
                    if is_cont c2 then b # c1 # c2 # decode_utf8_replace r2
                    else REPLACEMENT @ decode_utf8_replace r1)
             else REPLACEMENT @ decode_utf8_replace bs)
      else if n < 0xF5 then
        (case bs of
           [] \<Rightarrow> REPLACEMENT
         | c1 # r1 \<Rightarrow>
             if second_ok n c1 then
               (case r1 of
                  [] \<Rightarrow> REPLACEMENT
                | c2 # r2 \<Rightarrow>
                    if is_cont c2 then
                      (case r2 of
                         [] \<Rightarrow> REPLACEMENT
                       | c3 # r3 \<Rightarrow>
                           if is_cont c3 then b # c1 # c2 # c3 # decode_utf8_replace r3
                           else REPLACEMENT @ decode_utf8_replace r2)
                    else REPLACEMENT @ decode_utf8_replace r1)
             else REPLACEMENT @ decode_utf8_replace bs)
      else REPLACEMENT @ decode_utf8_replace bs)"

section \<open>The chunk codec (dump.py)\<close>

subsection \<open>\<open>_copy_to_inserts\<close>\<close>

text \<open>The body of the inner loop over the fields of a record: one SQL value per field.\<close>

definition field_value :: "bytes \<Rightarrow> string" where
  "field_value f =
     (if f = [BSL, CHR ''N''] then ''NULL''
      else
        (let s = bytes_replace [NUL] [BSL]
                   (bytes_replace [BSL, CHR ''t''] [TAB]
                     (bytes_replace [BSL, CHR ''r''] [CR]
                       (bytes_replace [BSL, CHR ''n''] [NL]
                         (bytes_replace [BSL, BSL] [NUL] f))));
             text = decode_utf8_replace s;
             text = bytes_replace [SQ] [SQ, SQ] text
         in [SQ] @ text @ [SQ]))"

text \<open>The string appended to \<open>batch\<close> for one record.\<close>

definition row_sql :: "bytes \<Rightarrow> string" where
  "row_sql line =
     (let fields = split_on TAB line;
          values = map field_value fields
      in ''  ('' @ join '', '' values @ '')'')"

text \<open>The statement appended to \<open>output_parts\<close> when a batch is flushed.\<close>

definition insert_statement :: "string \<Rightarrow> string list \<Rightarrow> string" where
  "insert_statement header batch = header @ [NL] @ join ('','' @ [NL]) batch @ '';''"

text \<open>
  The loop \<open>for line in lines\<close>, with the pair of accumulators \<open>(output_parts, batch)\<close>.
\<close>

fun insert_loop ::
  "string \<Rightarrow> int \<Rightarrow> bytes list \<Rightarrow> string list \<times> string list \<Rightarrow> string list \<times> string list"
where
  "insert_loop header batch_size [] (output_parts, batch) = (output_parts, batch)"
| "insert_loop header batch_size (line # lines) (output_parts, batch) =
     (let batch = batch @ [row_sql line] in
      if int (length batch) \<ge> batch_size
      then insert_loop header batch_size lines
             (output_parts @ [insert_statement header batch], [])
      else insert_loop header batch_size lines (output_parts, batch))"

definition insert_header :: "string \<Rightarrow> string list \<Rightarrow> string" where
  "insert_header table_name columns =
     (let cols_quoted = join '', '' (map (\<lambda>c. [DQ] @ c @ [DQ]) columns)
      in ''INSERT INTO '' @ [DQ] @ table_name @ [DQ] @ '' ('' @ cols_quoted @ '') VALUES'')"

text \<open>The records of a buffer: split at newline, a trailing empty piece dropped.\<close>

definition copy_lines :: "bytes \<Rightarrow> bytes list" where
  "copy_lines raw =
     (let lines = split_on NL raw
      in if lines \<noteq> [] \<and> last lines = [] then butlast lines else lines)"

definition copy_to_inserts :: "bytes \<Rightarrow> string \<Rightarrow> string list \<Rightarrow> int \<Rightarrow> string" where
  "copy_to_inserts raw table_name columns batch_size =
     (if raw = [] then []
      else
        (let header = insert_header table_name columns;
             lines = copy_lines raw;
             (output_parts, batch) = insert_loop header batch_size lines ([], []);
             output_parts = (if batch \<noteq> [] then output_parts @ [insert_statement header batch]
                             else output_parts)
         in join [NL, NL] output_parts))"

subsection \<open>\<open>_build_sql_chunk\<close>\<close>

text \<open>Truthiness of \<open>schema_ddl: str | None\<close>.\<close>

definition truthy :: "string option \<Rightarrow> bool" where
  "truthy s = (case s of None \<Rightarrow> False | Some d \<Rightarrow> d \<noteq> [])"

text \<open>
  The list \<open>parts\<close> as the function leaves it; \<open>now\<close> stands for
  \<open>datetime.now().isoformat()\<close>. In the branches that append \<open>schema_ddl\<close> it is not
  \<open>None\<close>, so \<open>the\<close> reads a value that is there.
\<close>

definition build_sql_parts ::
  "string \<Rightarrow> bytes \<Rightarrow> TableInfo \<Rightarrow> DumpSettings \<Rightarrow> string option \<Rightarrow> (string \<times> string) list
   \<Rightarrow> bool \<Rightarrow> bool \<Rightarrow> string list"
where
  "build_sql_parts now copy_data table settings schema_ddl index_defs is_first is_last =
     (let parts = [];
          parts = parts @ [''-- dbtool dump: '' @ ti_name table];
          parts = parts @ [''-- generated: '' @ now];
          parts = (if is_first then parts @ [''-- chunk: 0 (first '' @ EM_DASH @ '' includes preamble)'']
                   else parts);
          parts = (if is_last then parts @ [''-- chunk: last (includes epilogue)''] else parts);
          parts = parts @ [''''];
          parts =
            (if is_first then
               (let parts =
                      (if drop_on_restore settings
                       then parts @ [''DROP TABLE IF EXISTS '' @ [DQ] @ ti_name table @ [DQ]
                                       @ '' CASCADE;'', '''']
                       else parts);
                    parts =
                      (if recreate_schema settings \<and> truthy schema_ddl
                       then parts @ [''-- schema'', the schema_ddl, '''']
                       else if drop_on_restore settings \<and> truthy schema_ddl
                       then parts @ [''-- schema (required after DROP)'', the schema_ddl, '''']
                       else parts);
                    parts =
                      (if truncate_before_restore settings \<and> \<not> drop_on_restore settings
                       then parts @ [''TRUNCATE TABLE '' @ [DQ] @ ti_name table @ [DQ]
                                       @ '' CASCADE;'', '''']
                       else parts);
                    parts =
                      (if disable_indexes_on_restore settings \<and> index_defs \<noteq> []
                       then parts @ [''-- drop indexes for faster bulk load'']
                              @ map (\<lambda>(idx_name, _). ''DROP INDEX IF EXISTS '' @ [DQ] @ idx_name
                                                        @ [DQ] @ '';'') index_defs
                              @ ['''']
                       else parts)
                in parts)
             else parts);
          parts = (if use_transactions settings then parts @ [''BEGIN;'', ''''] else parts);
          inserts = copy_to_inserts copy_data (ti_name table) (ti_columns table)
                      (insert_batch_size settings);
          parts = parts @ [inserts];
          parts = (if use_transactions settings then parts @ [''COMMIT;'', ''''] else parts);
          parts =
            (if is_last \<and> disable_indexes_on_restore settings \<and> index_defs \<noteq> []
             then parts @ [''-- rebuild indexes'']
                    @ map (\<lambda>(_, idx_defn). idx_defn @ '';'') index_defs
                    @ ['''']
             else parts)
      in parts)"

definition build_sql_chunk ::
  "string \<Rightarrow> bytes \<Rightarrow> TableInfo \<Rightarrow> DumpSettings \<Rightarrow> string option \<Rightarrow> (string \<times> string) list
   \<Rightarrow> bool \<Rightarrow> bool \<Rightarrow> bytes"
where
  "build_sql_chunk now copy_data table settings schema_ddl index_defs is_first is_last =
     join [NL] (build_sql_parts now copy_data table settings schema_ddl index_defs is_first is_last)"

section \<open>The dump pipeline (dump.py)\<close>

text \<open>The dataclass \<open>DBConfig\<close> (config.py), fields prefixed with \<open>cfg_\<close>.\<close>

record DBConfig =
  cfg_name :: string
  cfg_host :: string
  cfg_port :: int
  cfg_user :: string
  cfg_password :: string
  cfg_databases :: "string list"

text \<open>
  The two kinds of Python exception the pipelines tell apart: \<open>except Exception\<close> catches
  the first and lets the second pass.
\<close>

datatype exn = Exception | KeyboardInterrupt

subsection \<open>Manifest helpers\<close>

text \<open>\<open>_make_manifest\<close>; \<open>now\<close> is \<open>datetime.now().isoformat()\<close>.\<close>

definition make_manifest ::
  "string \<Rightarrow> DBConfig \<Rightarrow> string \<Rightarrow> TableInfo \<Rightarrow> DumpSettings \<Rightarrow> int \<Rightarrow> int \<Rightarrow> int \<Rightarrow> bool \<Rightarrow> bool
   \<Rightarrow> DumpManifest"
where
  "make_manifest now db_cfg dbname table settings total_rows' chunks_completed' chunks_total'
     has_schema' finished =
     \<lparr>mf_connection_name = cfg_name db_cfg, mf_database = dbname,
      mf_table = ti_name table, mf_schema = ti_schema table,
      mf_columns = ti_columns table, mf_pk_columns = ti_pk_columns table,
      mf_chunk_rows = chunk_rows settings, mf_total_rows = total_rows',
      mf_chunks_completed = chunks_completed', mf_chunks_total = chunks_total',
      mf_started_at = now,
      mf_finished_at = (if finished then Some now else None),
      mf_compressed = compress settings,
      mf_dump_mode = dump_mode settings,
      mf_has_schema = has_schema'\<rparr>"

text \<open>
  The text \<open>json.dumps(asdict(manifest), indent=n)\<close> is kept symbolic: the serialisation of
  the whole document with that indentation. A file holds such a text, or some other text
  (in particular the empty one, after a truncation).
\<close>

datatype file_content = Json_text DumpManifest nat | Plain_text string

definition json_dumps :: "DumpManifest \<Rightarrow> nat \<Rightarrow> file_content" where
  "json_dumps doc indent = Json_text doc indent"

text \<open>
  \<open>Path.write_text(data)\<close> opens the path itself for writing, which creates or truncates
  the file, writes the data and closes the file. The function returns the states the file
  system passes through, in order; the last one is the state when the call returns.
\<close>

definition write_text ::
  "string \<Rightarrow> file_content \<Rightarrow> (string \<rightharpoonup> file_content) \<Rightarrow> (string \<rightharpoonup> file_content) list"
where
  "write_text path data fs = [fs(path \<mapsto> Plain_text []), fs(path \<mapsto> data)]"

text \<open>\<open>_write_manifest\<close>.\<close>

definition write_manifest ::
  "string \<Rightarrow> DumpManifest \<Rightarrow> (string \<rightharpoonup> file_content) \<Rightarrow> (string \<rightharpoonup> file_content) list"
where
  "write_manifest path manifest fs = write_text path (json_dumps manifest 2) fs"

text \<open>What a reader of one path sees in each of a sequence of states.\<close>

definition observed :: "string \<Rightarrow> (string \<rightharpoonup> file_content) list \<Rightarrow> file_content option list" where
  "observed path states = map (\<lambda>fs. fs path) states"

subsection \<open>\<open>dump_table\<close>\<close>

text \<open>
  Everything outside the function that it reads: the clock, the catalog probe, the
  database, the disk and the interrupt flag. A probe or a query that raises is \<open>None\<close> or
  \<open>Inl\<close>. \<open>de_write\<close> says, for a chunk file, whether writing it fails and then which
  partial content is left behind.
\<close>

record dump_env =
  de_now :: string
  de_now_chunk :: "int \<Rightarrow> string"
  de_now_finished :: string
  de_table_ddl :: "string option"
  de_schema_write_ok :: bool
  de_indexes :: "((string \<times> string \<times> bool) list \<times> string list) option"
  de_connect_ok :: bool
  de_count :: "exn + int"
  de_copy :: "int \<Rightarrow> int \<Rightarrow> exn + bytes"
  de_gzip :: "int \<Rightarrow> bytes \<Rightarrow> bytes"
  de_write :: "string \<Rightarrow> bytes option"
  de_interrupted :: "int \<Rightarrow> bool"
  de_interrupted_end :: bool

datatype dump_msg =
    SkipCompleted | Resuming int | SavedSchema | SchemaWarning | IndexWarning
  | EmptyTable | Success int | Paused int int | ForceStopped | Failed

text \<open>
  What a run does to the outside, in order. \<open>ManifestWritten\<close> is one call of
  \<open>_write_manifest\<close>; the progress display and the row counters that feed only it are
  left out.
\<close>

datatype dump_event =
    Printed dump_msg
  | SchemaWritten string
  | Connected
  | Cancelled
  | Closed
  | ChunkWritten string bytes
  | ChunkWriteFailed string bytes
  | ManifestWritten DumpManifest

text \<open>The bytes written to the chunk file of index \<open>chunk_idx\<close> (dump.py, lines 153 to 167).\<close>

definition chunk_payload ::
  "dump_env \<Rightarrow> TableInfo \<Rightarrow> DumpSettings \<Rightarrow> string option \<Rightarrow> (string \<times> string) list
   \<Rightarrow> int \<Rightarrow> int \<Rightarrow> int \<Rightarrow> bytes \<Rightarrow> bytes"
where
  "chunk_payload env table settings schema_ddl index_defs start_chunk chunks_total' chunk_idx raw =
     (let raw =
            (if dump_mode settings = ''insert'' then
               (let is_first = (chunk_idx = 0 \<and> start_chunk = 0);
                    is_last = (chunk_idx = chunks_total' - 1)
                in build_sql_chunk (de_now_chunk env chunk_idx) raw table settings schema_ddl
                     index_defs is_first is_last)
             else raw)
      in if compress settings then de_gzip env (compress_level settings) raw else raw)"

text \<open>The loop \<open>while chunk_idx < chunks_total and not interrupted\<close>.\<close>

function dump_loop ::
  "dump_env \<Rightarrow> TableInfo \<Rightarrow> DumpSettings \<Rightarrow> string option \<Rightarrow> (string \<times> string) list
   \<Rightarrow> int \<Rightarrow> int \<Rightarrow> DumpManifest \<Rightarrow> int
   \<Rightarrow> dump_event list \<times> (exn + DumpManifest \<times> int)"
where
  "dump_loop env table settings schema_ddl index_defs start_chunk chunks_total' manifest chunk_idx =
     (if chunk_idx < chunks_total' \<and> \<not> de_interrupted env chunk_idx then
        (let offset = chunk_idx * chunk_rows settings;
             chunk_file = chunk_filename manifest chunk_idx
         in case de_copy env (chunk_rows settings) offset of
              Inl KeyboardInterrupt \<Rightarrow> ([Cancelled], Inl KeyboardInterrupt)
            | Inl Exception \<Rightarrow> ([], Inl Exception)
            | Inr raw \<Rightarrow>
                (let data = chunk_payload env table settings schema_ddl index_defs start_chunk
                              chunks_total' chunk_idx raw
                 in case de_write env chunk_file of
                      Some partial \<Rightarrow> ([ChunkWriteFailed chunk_file partial], Inl Exception)
                    | None \<Rightarrow>
                        (let manifest = manifest\<lparr>mf_chunks_completed := chunk_idx + 1\<rparr>
                         in case dump_loop env table settings schema_ddl index_defs start_chunk
                                   chunks_total' manifest (chunk_idx + 1) of
                              (events, r) \<Rightarrow>
                                (ChunkWritten chunk_file data # ManifestWritten manifest # events,
                                 r))))
      else ([], Inr (manifest, chunk_idx)))"
  by pat_completeness auto
termination
  by (relation "measure (\<lambda>(env, table, settings, schema_ddl, index_defs, start_chunk,
                           chunks_total', manifest, chunk_idx). nat (chunks_total' - chunk_idx))")
     auto

declare dump_loop.simps [simp del]

text \<open>The steps before the connection is opened: schema DDL and index definitions.\<close>

definition dump_schema_step ::
  "dump_env \<Rightarrow> DumpSettings \<Rightarrow> dump_event list \<times> string option \<times> bool"
where
  "dump_schema_step env settings =
     (if dump_schema settings then
        (case de_table_ddl env of
           None \<Rightarrow> ([Printed SchemaWarning], None, False)
         | Some ddl \<Rightarrow>
             if de_schema_write_ok env
             then ([SchemaWritten ddl, Printed SavedSchema], Some ddl, True)
             else ([Printed SchemaWarning], Some ddl, False))
      else ([], None, False))"

definition dump_index_step ::
  "dump_env \<Rightarrow> DumpSettings \<Rightarrow> dump_event list \<times> (string \<times> string) list"
where
  "dump_index_step env settings =
     (if dump_mode settings = ''insert'' \<and> disable_indexes_on_restore settings then
        (case de_indexes env of
           None \<Rightarrow> ([Printed IndexWarning], [])
         | Some (raw_indexes, pk_names) \<Rightarrow>
             ([], map (\<lambda>(name, defn, _). (name, defn))
                      (filter (\<lambda>(name, defn, _). name \<notin> set pk_names) raw_indexes)))
      else ([], []))"

text \<open>
  The body of \<open>dump_table\<close> once \<open>start_chunk\<close> is known. A division by a zero
  \<open>chunk_rows\<close> raises, as in Python; \<open>//\<close> is the floor division \<open>div\<close>.
\<close>

definition dump_from ::
  "dump_env \<Rightarrow> DBConfig \<Rightarrow> string \<Rightarrow> TableInfo \<Rightarrow> DumpSettings \<Rightarrow> int
   \<Rightarrow> dump_event list \<times> (exn + unit)"
where
  "dump_from env db_cfg dbname table settings start_chunk =
     (case dump_schema_step env settings of
        (ev_schema, schema_ddl, has_schema') \<Rightarrow>
     (case dump_index_step env settings of
        (ev_index, index_defs) \<Rightarrow>
     (let before = (if start_chunk > 0 then [Printed (Resuming start_chunk)] else [])
                   @ ev_schema @ ev_index
      in
      if \<not> de_connect_ok env then (before, Inl Exception)
      else
        (case de_count env of
           Inl KeyboardInterrupt \<Rightarrow>
             (before @ [Connected, Printed ForceStopped, Closed], Inl KeyboardInterrupt)
         | Inl Exception \<Rightarrow> (before @ [Connected, Printed Failed, Closed], Inl Exception)
         | Inr total_rows' \<Rightarrow>
             if total_rows' = 0 then
               (before @ [Connected, Printed EmptyTable,
                          ManifestWritten (make_manifest (de_now env) db_cfg dbname table settings
                                             0 0 0 has_schema' True),
                          Closed],
                Inr ())
             else if chunk_rows settings = 0 then
               (before @ [Connected, Printed Failed, Closed], Inl Exception)
             else
               (let chunks_total' = (total_rows' + chunk_rows settings - 1) div chunk_rows settings;
                    manifest = make_manifest (de_now env) db_cfg dbname table settings total_rows'
                                 start_chunk chunks_total' has_schema' False
                in case dump_loop env table settings schema_ddl index_defs start_chunk
                          chunks_total' manifest start_chunk of
                     (events, Inl KeyboardInterrupt) \<Rightarrow>
                       (before @ [Connected] @ events @ [Printed ForceStopped, Closed],
                        Inl KeyboardInterrupt)
                   | (events, Inl Exception) \<Rightarrow>
                       (before @ [Connected] @ events @ [Printed Failed, Closed], Inl Exception)
                   | (events, Inr (manifest, chunk_idx)) \<Rightarrow>
                       if \<not> de_interrupted_end env then
                         (let manifest = manifest\<lparr>mf_finished_at := Some (de_now_finished env)\<rparr>
                          in (before @ [Connected] @ events
                                @ [ManifestWritten manifest, Printed (Success chunk_idx), Closed],
                              Inr ()))
                       else
                         (before @ [Connected] @ events
                            @ [Printed (Paused chunk_idx chunks_total'), Closed],
                          Inr ()))))))"

text \<open>
  \<open>dump_table\<close>; \<open>existing\<close> is the manifest found in the table directory, if there is
  one.
\<close>

definition dump_table ::
  "dump_env \<Rightarrow> DBConfig \<Rightarrow> string \<Rightarrow> TableInfo \<Rightarrow> DumpSettings \<Rightarrow> bool \<Rightarrow> DumpManifest option
   \<Rightarrow> dump_event list \<times> (exn + unit)"
where
  "dump_table env db_cfg dbname table settings resume existing =
     (case (if resume then existing else None) of
        Some ex \<Rightarrow>
          if truthy (mf_finished_at ex) then ([Printed SkipCompleted], Inr ())
          else dump_from env db_cfg dbname table settings (mf_chunks_completed ex)
      | None \<Rightarrow> dump_from env db_cfg dbname table settings 0)"


text \<open>The manifests written by a sequence of events, in order.\<close>

fun manifests_written :: "dump_event list \<Rightarrow> DumpManifest list" where
  "manifests_written [] = []"
| "manifests_written (ManifestWritten m # events) = m # manifests_written events"
| "manifests_written (_ # events) = manifests_written events"

fun chunks_written :: "dump_event list \<Rightarrow> string list" where
  "chunks_written [] = []"
| "chunks_written (ChunkWritten name data # events) = name # chunks_written events"
| "chunks_written (ChunkWriteFailed name partial # events) = name # chunks_written events"
| "chunks_written (_ # events) = chunks_written events"

section \<open>The restore pipeline (restore.py)\<close>

text \<open>
  What one attempt to apply a chunk meets in the database: the connection is refused,
  the statement or the copy fails, the user interrupts it, the commit fails, or all
  succeeds.
\<close>

datatype attempt_outcome =
  Connect_refused | Apply_fails | Apply_interrupted | Commit_fails | Succeeds

text \<open>
  Everything outside \<open>restore_table\<close> that it reads: the manifest and the state file in the
  table directory (the value of \<open>chunks_restored\<close>, if the file exists), the chunk files,
  \<open>schema.sql\<close>, the interrupt flag as read at the head of the loop for a chunk and after
  the loop, and the outcome of each database operation.
\<close>

record restore_env =
  re_manifest :: "DumpManifest option"
  re_state :: "int option"
  re_chunk_files :: "string \<rightharpoonup> bytes"
  re_gunzip :: "bytes \<Rightarrow> bytes"
  re_schema_file :: "string option"
  re_interrupted :: "int \<Rightarrow> bool"
  re_interrupted_end :: bool
  re_pre_connect_ok :: bool
  re_drop_ok :: bool
  re_ddl_ok :: bool
  re_truncate_ok :: bool
  re_index_connect_ok :: bool
  re_index_query :: "(string \<times> string) list option"
  re_index_drop_ok :: "string \<Rightarrow> bool"
  re_attempt :: "int \<Rightarrow> int \<Rightarrow> attempt_outcome"
  re_rebuild_connect_ok :: bool
  re_rebuild_ok :: "string \<Rightarrow> bool"

datatype restore_msg =
    NoManifest | EmptyDump | AlreadyRestored | ResumingAt int | PausedAt int
  | MissingChunk string | AttemptFailed int int int | ChunkFailed int int | Restored
  | DroppedTable | RecreatedSchema | NoSchemaFile | TruncatedTable | CouldNotTruncate
  | DroppedIndex string | DropIndexesFailed | RebuildingIndex | RebuiltIndexes nat
  | RebuildFailed

text \<open>
  What a restore does to the outside, in order: messages, operations on a database
  connection, sleeps, and writes of \<open>restore_state.json\<close>. \<open>Execute\<close> and \<open>CopyExpert\<close>
  are the operations as issued; \<open>Commit\<close> is a commit that succeeded.
\<close>

datatype restore_event =
    Say restore_msg
  | Connect
  | ConnectFailed
  | Execute string
  | ExecuteIndexQuery string string
  | CopyExpert string bytes
  | Commit
  | CommitFailed
  | Rollback
  | Close
  | Sleep int
  | StateWritten int

text \<open>\<open>start_chunk\<close>: \<open>state.get("chunks_restored", 0)\<close> if the state file exists, else 0.\<close>

definition resume_point :: "int option \<Rightarrow> int" where
  "resume_point state = (case state of None \<Rightarrow> 0 | Some chunks_restored \<Rightarrow> chunks_restored)"

text \<open>Strict decoding, \<open>raw_data.decode("utf-8")\<close>: it raises where the input is ill-formed.\<close>

definition decode_strict :: "bytes \<Rightarrow> string option" where
  "decode_strict raw = (if decode_utf8_replace raw = raw then Some raw else None)"

subsection \<open>\<open>_pre_restore\<close>\<close>

definition pre_restore ::
  "restore_env \<Rightarrow> string \<Rightarrow> DumpSettings \<Rightarrow> bool \<Rightarrow> restore_event list \<times> (exn + unit)"
where
  "pre_restore env table_name settings has_schema' =
     (let drop_sql = ''DROP TABLE IF EXISTS '' @ [DQ] @ table_name @ [DQ] @ '' CASCADE'';
          truncate_sql = ''TRUNCATE TABLE '' @ [DQ] @ table_name @ [DQ] @ '' CASCADE''
      in
      if \<not> re_pre_connect_ok env then ([ConnectFailed], Inl Exception)
      else if drop_on_restore settings \<and> \<not> re_drop_ok env
      then ([Connect, Execute drop_sql, Close], Inl Exception)
      else
        (let ev = [Connect]
                  @ (if drop_on_restore settings
                     then [Execute drop_sql, Commit, Say DroppedTable] else [])
         in
         if recreate_schema settings \<and> has_schema' \<and> re_schema_file env \<noteq> None
            \<and> \<not> re_ddl_ok env
         then (ev @ [Execute (the (re_schema_file env)), Close], Inl Exception)
         else
           (let ev = ev
                     @ (if recreate_schema settings \<and> has_schema' then
                          (case re_schema_file env of
                             Some ddl \<Rightarrow> [Execute ddl, Commit, Say RecreatedSchema]
                           | None \<Rightarrow> [Say NoSchemaFile])
                        else []);
                ev = ev
                     @ (if truncate_before_restore settings \<and> \<not> drop_on_restore settings then
                          (if re_truncate_ok env
                           then [Execute truncate_sql, Commit, Say TruncatedTable]
                           else [Execute truncate_sql, Rollback, Say CouldNotTruncate])
                        else [])
            in (ev @ [Close], Inr ()))))"

subsection \<open>\<open>_drop_non_pk_indexes\<close> and \<open>_rebuild_indexes\<close>\<close>

text \<open>
  The loop over the rows of the catalog query: the definition is saved before the drop is
  issued; a drop that fails ends the loop in the handler, which rolls back.
\<close>

fun drop_index_loop ::
  "restore_env \<Rightarrow> string \<Rightarrow> (string \<times> string) list \<Rightarrow> string list
   \<Rightarrow> restore_event list \<times> string list"
where
  "drop_index_loop env schema' [] definitions = ([Commit], definitions)"
| "drop_index_loop env schema' ((idx_name, idx_def) # rows) definitions =
     (let definitions = definitions @ [idx_def];
          drop_sql = ''DROP INDEX IF EXISTS '' @ [DQ] @ schema' @ [DQ] @ ''.''
                     @ [DQ] @ idx_name @ [DQ]
      in if re_index_drop_ok env idx_name then
           (case drop_index_loop env schema' rows definitions of
              (ev, defs) \<Rightarrow> (Execute drop_sql # Say (DroppedIndex idx_name) # ev, defs))
         else ([Execute drop_sql, Say DropIndexesFailed, Rollback], definitions))"

definition drop_non_pk_indexes ::
  "restore_env \<Rightarrow> string \<Rightarrow> string \<Rightarrow> restore_event list \<times> (exn + string list)"
where
  "drop_non_pk_indexes env table_name schema' =
     (if \<not> re_index_connect_ok env then ([ConnectFailed], Inl Exception)
      else
        (case re_index_query env of
           None \<Rightarrow>
             ([Connect, ExecuteIndexQuery schema' table_name, Say DropIndexesFailed, Rollback,
               Close],
              Inr [])
         | Some rows \<Rightarrow>
             (case drop_index_loop env schema' rows [] of
                (ev, definitions) \<Rightarrow>
                  ([Connect, ExecuteIndexQuery schema' table_name] @ ev @ [Close],
                   Inr definitions))))"

fun rebuild_loop :: "restore_env \<Rightarrow> nat \<Rightarrow> string list \<Rightarrow> restore_event list" where
  "rebuild_loop env n [] = [Commit, Say (RebuiltIndexes n)]"
| "rebuild_loop env n (defn # definitions) =
     (if re_rebuild_ok env defn
      then Say RebuildingIndex # Execute defn # rebuild_loop env n definitions
      else [Say RebuildingIndex, Execute defn, Say RebuildFailed, Rollback])"

definition rebuild_indexes :: "restore_env \<Rightarrow> string list \<Rightarrow> restore_event list \<times> (exn + unit)" where
  "rebuild_indexes env definitions =
     (if \<not> re_rebuild_connect_ok env then ([ConnectFailed], Inl Exception)
      else ([Connect] @ rebuild_loop env (length definitions) definitions @ [Close], Inr ()))"

subsection \<open>Applying one chunk, with retries\<close>

text \<open>
  One pass through the body of \<open>for attempt in range(1, settings.max_retries + 1)\<close> up to
  the outer handler: a fresh connection, the statement or the copy, the commit, and on an
  exception the rollback; the connection is closed in every case in which it was opened.
\<close>

definition one_attempt ::
  "restore_env \<Rightarrow> DumpSettings \<Rightarrow> string \<Rightarrow> string \<Rightarrow> bytes \<Rightarrow> int \<Rightarrow> int
   \<Rightarrow> restore_event list \<times> (exn + unit)"
where
  "one_attempt env settings dump_mode' copy_sql raw_data chunk_idx attempt =
     (let outcome = re_attempt env chunk_idx attempt in
      if outcome = Connect_refused then ([ConnectFailed], Inl Exception)
      else if dump_mode' = ''insert'' \<and> decode_strict raw_data = None
      then ([Connect, Rollback, Close], Inl Exception)
      else
        (let apply = (if dump_mode' = ''insert'' then Execute (the (decode_strict raw_data))
                      else CopyExpert copy_sql raw_data)
         in case outcome of
              Apply_fails \<Rightarrow> ([Connect, apply, Rollback, Close], Inl Exception)
            | Apply_interrupted \<Rightarrow> ([Connect, apply, Close], Inl KeyboardInterrupt)
            | Commit_fails \<Rightarrow> ([Connect, apply, CommitFailed, Rollback, Close], Inl Exception)
            | _ \<Rightarrow>
                ([Connect, apply]
                   @ (if use_transactions settings then [Commit] else [Commit])
                   @ [Close],
                 Inr ())))"

text \<open>
  The loop over the attempts, from \<open>attempt\<close> on. \<open>time.sleep\<close> raises on a negative
  argument. The result \<open>Inr ()\<close> is the normal end of the loop, by \<open>break\<close> or because the
  range is used up.
\<close>

function apply_with_retry ::
  "restore_env \<Rightarrow> DumpSettings \<Rightarrow> string \<Rightarrow> string \<Rightarrow> bytes \<Rightarrow> int \<Rightarrow> int
   \<Rightarrow> restore_event list \<times> (exn + unit)"
where
  "apply_with_retry env settings dump_mode' copy_sql raw_data chunk_idx attempt =
     (if attempt > max_retries settings then ([], Inr ())
      else
        (case one_attempt env settings dump_mode' copy_sql raw_data chunk_idx attempt of
           (ev, Inr _) \<Rightarrow> (ev, Inr ())
         | (ev, Inl KeyboardInterrupt) \<Rightarrow> (ev, Inl KeyboardInterrupt)
         | (ev, Inl Exception) \<Rightarrow>
             if attempt < max_retries settings then
               (let wait = retry_backoff settings ^ nat attempt in
                if wait < 0
                then (ev @ [Say (AttemptFailed chunk_idx attempt wait)], Inl Exception)
                else
                  (case apply_with_retry env settings dump_mode' copy_sql raw_data chunk_idx
                          (attempt + 1) of
                     (ev', r) \<Rightarrow>
                       (ev @ [Say (AttemptFailed chunk_idx attempt wait), Sleep wait] @ ev', r)))
             else
               (ev @ [Say (ChunkFailed chunk_idx (max_retries settings)),
                      StateWritten chunk_idx],
                Inl Exception)))"
  by pat_completeness auto
termination
  by (relation "measure (\<lambda>(env, settings, dump_mode', copy_sql, raw_data, chunk_idx, attempt).
                           nat (max_retries settings + 1 - attempt))")
     auto

declare apply_with_retry.simps [simp del]

subsection \<open>\<open>restore_table\<close>\<close>

datatype loop_end = Completed | Broke | Returned

text \<open>The loop \<open>for chunk_idx in range(start_chunk, chunks_total)\<close>, from \<open>chunk_idx\<close> on.\<close>

function restore_loop ::
  "restore_env \<Rightarrow> DumpSettings \<Rightarrow> DumpManifest \<Rightarrow> int
   \<Rightarrow> restore_event list \<times> (exn + loop_end)"
where
  "restore_loop env settings manifest chunk_idx =
     (if chunk_idx < mf_chunks_total manifest then
        (if re_interrupted env chunk_idx then ([Say (PausedAt chunk_idx)], Inr Broke)
         else
           (let table_name = mf_table manifest;
                col_list = join '', '' (map (\<lambda>c. [DQ] @ c @ [DQ]) (mf_columns manifest));
                chunk_file = restore_chunk_name table_name (mf_dump_mode manifest)
                               (mf_compressed manifest) chunk_idx
            in case re_chunk_files env chunk_file of
                 None \<Rightarrow> ([Say (MissingChunk chunk_file)], Inr Returned)
               | Some stored \<Rightarrow>
                   (let raw_data = (if mf_compressed manifest then re_gunzip env stored
                                    else stored);
                        copy_sql = ''COPY '' @ [DQ] @ table_name @ [DQ] @ '' ('' @ col_list
                                   @ '') FROM STDIN''
                    in case apply_with_retry env settings (mf_dump_mode manifest) copy_sql
                              raw_data chunk_idx 1 of
                         (ev, Inl e) \<Rightarrow> (ev, Inl e)
                       | (ev, Inr _) \<Rightarrow>
                           (case restore_loop env settings manifest (chunk_idx + 1) of
                              (ev', r) \<Rightarrow> (ev @ [StateWritten (chunk_idx + 1)] @ ev', r)))))
      else ([], Inr Completed))"
  by pat_completeness auto
termination
  by (relation "measure (\<lambda>(env, settings, manifest, chunk_idx).
                           nat (mf_chunks_total manifest - chunk_idx))")
     auto

declare restore_loop.simps [simp del]

definition restore_table ::
  "restore_env \<Rightarrow> DBConfig \<Rightarrow> string \<Rightarrow> DumpSettings \<Rightarrow> restore_event list \<times> (exn + unit)"
where
  "restore_table env db_cfg dbname settings =
     (case re_manifest env of
        None \<Rightarrow> ([Say NoManifest], Inr ())
      | Some manifest \<Rightarrow>
          if mf_total_rows manifest = 0 then ([Say EmptyDump], Inr ())
          else
            (let start_chunk = resume_point (re_state env) in
             if re_state env \<noteq> None \<and> start_chunk \<ge> mf_chunks_total manifest
             then ([Say AlreadyRestored], Inr ())
             else
               (let ev0 = (if re_state env \<noteq> None \<and> start_chunk > 0
                           then [Say (ResumingAt start_chunk)] else [])
                in case (if start_chunk = 0
                         then pre_restore env (mf_table manifest) settings (mf_has_schema manifest)
                         else ([], Inr ())) of
                     (ev1, Inl e) \<Rightarrow> (ev0 @ ev1, Inl e)
                   | (ev1, Inr _) \<Rightarrow>
                (case (if disable_indexes_on_restore settings \<and> start_chunk = 0
                       then drop_non_pk_indexes env (mf_table manifest) (mf_schema manifest)
                       else ([], Inr [])) of
                     (ev2, Inl e) \<Rightarrow> (ev0 @ ev1 @ ev2, Inl e)
                   | (ev2, Inr dropped_indexes) \<Rightarrow>
                (case restore_loop env settings manifest start_chunk of
                     (ev3, Inl e) \<Rightarrow> (ev0 @ ev1 @ ev2 @ ev3, Inl e)
                   | (ev3, Inr Returned) \<Rightarrow> (ev0 @ ev1 @ ev2 @ ev3, Inr ())
                   | (ev3, Inr _) \<Rightarrow>
                (case (if dropped_indexes \<noteq> [] \<and> \<not> re_interrupted_end env
                       then rebuild_indexes env dropped_indexes
                       else ([], Inr ())) of
                     (ev4, Inl e) \<Rightarrow> (ev0 @ ev1 @ ev2 @ ev3 @ ev4, Inl e)
                   | (ev4, Inr _) \<Rightarrow>
                       (ev0 @ ev1 @ ev2 @ ev3 @ ev4
                          @ (if \<not> re_interrupted_end env then [Say Restored] else []),
                        Inr ())))))))"


fun states_written :: "restore_event list \<Rightarrow> int list" where
  "states_written [] = []"
| "states_written (StateWritten k # events) = k # states_written events"
| "states_written (_ # events) = states_written events"

text \<open>The number of connections a sequence of events asks for.\<close>

fun connections :: "restore_event list \<Rightarrow> nat" where
  "connections [] = 0"
| "connections (Connect # events) = Suc (connections events)"
| "connections (ConnectFailed # events) = Suc (connections events)"
| "connections (_ # events) = connections events"

section \<open>The two ends of the copy-to-insert conversion\<close>

subsection \<open>The COPY text encoding\<close>






subsection \<open>UTF-8\<close>




subsection \<open>Reading an SQL value back\<close>




subsection \<open>The stages of the unescaping\<close>








section \<open>Auxiliary definitions used in the proofs\<close>

text \<open>Reading a string of decimal digits back as a number.\<close>

definition dec_value :: "string \<Rightarrow> nat" where
  "dec_value s = foldl (\<lambda>a c. 10 * a + (of_char c - 48)) 0 s"

text \<open>
  The grouping that the loop of \<open>_copy_to_inserts\<close> performs, on the records themselves
  rather than on the text built from them: the pair is (batches flushed, open batch).
\<close>

fun batch_loop :: "int \<Rightarrow> 'a list \<Rightarrow> 'a list list \<times> 'a list \<Rightarrow> 'a list list \<times> 'a list" where
  "batch_loop batch_size [] (done, batch) = (done, batch)"
| "batch_loop batch_size (x # xs) (done, batch) =
     (if int (length (batch @ [x])) \<ge> batch_size
      then batch_loop batch_size xs (done @ [batch @ [x]], [])
      else batch_loop batch_size xs (done, batch @ [x]))"

definition batches :: "int \<Rightarrow> 'a list \<Rightarrow> 'a list list" where
  "batches batch_size xs =
     (let (done, batch) = batch_loop batch_size xs ([], [])
      in if batch \<noteq> [] then done @ [batch] else done)"

text \<open>The row count of \<open>dump_table\<close> (dump.py, lines 149 to 151).\<close>

definition chunk_row_count :: "bytes \<Rightarrow> int" where
  "chunk_row_count raw =
     (let n = int (count_list raw NL)
      in if raw \<noteq> [] \<and> last raw \<noteq> NL then n + 1 else n)"




subsection \<open>A small dump, used to instantiate the theorems\<close>

text \<open>
  The table \<open>t(id, s)\<close> with the rows (1, a), (2, b), (3, c), dumped in copy mode without
  compression in chunks of two rows.
\<close>

definition example_cfg :: DBConfig where
  "example_cfg = \<lparr>cfg_name = ''prod'', cfg_host = ''localhost'', cfg_port = 5432,
     cfg_user = ''u'', cfg_password = ''p'', cfg_databases = [''index'']\<rparr>"

definition example_table :: TableInfo where
  "example_table = \<lparr>ti_schema = ''public'', ti_name = ''t'', ti_row_estimate = 3,
     ti_size_bytes = 8192, ti_total_size_bytes = 16384, ti_columns = [''id'', ''s''],
     ti_pk_columns = [''id'']\<rparr>"

definition example_settings :: DumpSettings where
  "example_settings = \<lparr>dump_dir = ''dumps'', chunk_rows = 2, compress = False,
     compress_level = 6, dump_mode = ''copy'', dump_schema = False, insert_batch_size = 2,
     use_transactions = True, truncate_before_restore = True, drop_on_restore = False,
     recreate_schema = False, disable_indexes_on_restore = False, max_retries = 3,
     retry_backoff = 2\<rparr>"

definition example_copy :: "int \<Rightarrow> int \<Rightarrow> exn + bytes" where
  "example_copy limit offset =
     (if offset = 0 then Inr (''1'' @ [TAB] @ ''a'' @ [NL] @ ''2'' @ [TAB] @ ''b'' @ [NL])
      else if offset = 2 then Inr (''3'' @ [TAB] @ ''c'' @ [NL])
      else Inr [])"

definition example_clock :: "int \<Rightarrow> string" where
  "example_clock chunk_idx = ''2024-01-01T00:00:01''"

definition example_gzip :: "int \<Rightarrow> bytes \<Rightarrow> bytes" where
  "example_gzip level data = data"

definition example_write :: "string \<Rightarrow> bytes option" where
  "example_write name = None"

definition example_flag :: "int \<Rightarrow> bool" where
  "example_flag chunk_idx = False"

definition example_env :: dump_env where
  "example_env = \<lparr>de_now = ''2024-01-01T00:00:00'', de_now_chunk = example_clock,
     de_now_finished = ''2024-01-01T00:00:02'', de_table_ddl = None,
     de_schema_write_ok = True, de_indexes = None, de_connect_ok = True, de_count = Inr 3,
     de_copy = example_copy, de_gzip = example_gzip, de_write = example_write,
     de_interrupted = example_flag, de_interrupted_end = False\<rparr>"

definition example_manifest :: "int \<Rightarrow> string option \<Rightarrow> DumpManifest" where
  "example_manifest completed finished =
     \<lparr>mf_connection_name = ''prod'', mf_database = ''index'', mf_table = ''t'',
      mf_schema = ''public'', mf_columns = [''id'', ''s''], mf_pk_columns = [''id''],
      mf_chunk_rows = 2, mf_total_rows = 3, mf_chunks_completed = completed,
      mf_chunks_total = 2, mf_started_at = ''2024-01-01T00:00:00'', mf_finished_at = finished,
      mf_compressed = False, mf_dump_mode = ''copy'', mf_has_schema = False\<rparr>"


subsection \<open>A small restore, used to instantiate the theorems\<close>

definition example_chunks :: "string \<rightharpoonup> bytes" where
  "example_chunks name =
     (if name = ''t_chunk_000000.csv''
      then Some (''1'' @ [TAB] @ ''a'' @ [NL] @ ''2'' @ [TAB] @ ''b'' @ [NL])
      else if name = ''t_chunk_000001.csv'' then Some (''3'' @ [TAB] @ ''c'' @ [NL])
      else None)"

definition example_gunzip :: "bytes \<Rightarrow> bytes" where
  "example_gunzip data = data"

definition example_drop_ok :: "string \<Rightarrow> bool" where
  "example_drop_ok name = True"

text \<open>The database accepts chunk 0 and fails on every attempt at chunk 1.\<close>

definition example_attempt :: "int \<Rightarrow> int \<Rightarrow> attempt_outcome" where
  "example_attempt chunk_idx attempt = (if chunk_idx = 1 then Apply_fails else Succeeds)"

definition example_restore_env :: restore_env where
  "example_restore_env =
     \<lparr>re_manifest = Some (example_manifest 2 (Some ''2024-01-01T00:00:02'')),
      re_state = None, re_chunk_files = example_chunks, re_gunzip = example_gunzip,
      re_schema_file = None, re_interrupted = example_flag, re_interrupted_end = False,
      re_pre_connect_ok = True, re_drop_ok = True, re_ddl_ok = True, re_truncate_ok = True,
      re_index_connect_ok = True, re_index_query = Some [], re_index_drop_ok = example_drop_ok,
      re_attempt = example_attempt, re_rebuild_connect_ok = True,
      re_rebuild_ok = example_drop_ok\<rparr>"


text \<open>A table directory that holds a manifest.\<close>

definition example_fs :: "string \<rightharpoonup> file_content" where
  "example_fs name =
     (if name = ''manifest.json'' then Some (Json_text (example_manifest 1 None) 2) else None)"

section \<open>Chunk file names\<close>

lemma dec_value_snoc: "dec_value (s @ [c]) = 10 * dec_value s + (of_char c - 48)"
  by (simp add: dec_value_def)

lemma of_char_digit: "d < 10 \<Longrightarrow> (of_char (digit_char d) :: nat) = 48 + d"
  by (simp add: digit_char_def)

lemma dec_value_digits: "dec_value (dec_digits n) = n"
proof (induction n rule: dec_digits.induct)
  case (1 n)
  show ?case
  proof (cases "n < 10")
    case True
    then show ?thesis by (subst dec_digits.simps) (simp add: dec_value_def of_char_digit)
  next
    case False
    with 1 show ?thesis
      by (subst dec_digits.simps) (simp add: dec_value_snoc of_char_digit)
  qed
qed

lemma dec_value_zeros: "dec_value (replicate k (CHR ''0'') @ s) = dec_value s"
  by (induction k) (simp_all add: dec_value_def)

lemma dec_value_pad: "dec_value (zero_pad w (dec_digits n)) = n"
  by (simp add: zero_pad_def dec_value_zeros dec_value_digits)

lemma dec_digits_ne: "dec_digits n \<noteq> []"
  by (subst dec_digits.simps) simp

lemma dec_digits_no_minus: "CHR ''-'' \<notin> set (dec_digits n)"
proof (induction n rule: dec_digits.induct)
  case (1 n)
  have d: "\<And>d. d < 10 \<Longrightarrow> CHR ''-'' \<noteq> digit_char d"
  proof
    fix d :: nat assume "d < 10" "CHR ''-'' = digit_char d"
    then have "(of_char (digit_char d) :: nat) = of_char (CHR ''-'')" by simp
    with \<open>d < 10\<close> show False by (simp add: of_char_digit)
  qed
  show ?case
  proof (cases "n < 10")
    case True
    then show ?thesis by (subst dec_digits.simps) (simp add: d)
  next
    case False
    with 1 show ?thesis
      by (subst dec_digits.simps) (simp add: d)
  qed
qed

lemma hd_pad_no_minus: "hd (zero_pad w (dec_digits n)) \<noteq> CHR ''-''"
proof -
  have "zero_pad w (dec_digits n) \<noteq> []" by (simp add: zero_pad_def dec_digits_ne)
  moreover have "CHR ''-'' \<notin> set (zero_pad w (dec_digits n))"
    by (auto simp: zero_pad_def dec_digits_no_minus)
  ultimately show ?thesis using hd_in_set by metis
qed

lemma format_06d_inj:
  assumes eq: "format_06d i = format_06d j"
  shows "i = j"
proof -
  consider "i < 0" "j < 0" | "i < 0" "\<not> j < 0" | "\<not> i < 0" "j < 0" | "\<not> i < 0" "\<not> j < 0"
    by blast
  then show ?thesis
  proof cases
    case 1
    with eq have "zero_pad 5 (dec_digits (nat (- i))) = zero_pad 5 (dec_digits (nat (- j)))"
      by (simp add: format_06d_def)
    then have "dec_value (zero_pad 5 (dec_digits (nat (- i))))
             = dec_value (zero_pad 5 (dec_digits (nat (- j))))"
      by simp
    then have "nat (- i) = nat (- j)" by (simp only: dec_value_pad)
    with 1 show ?thesis by simp
  next
    case 2
    with eq have "CHR ''-'' # zero_pad 5 (dec_digits (nat (- i))) = zero_pad 6 (dec_digits (nat j))"
      by (simp add: format_06d_def)
    then have "hd (zero_pad 6 (dec_digits (nat j))) = CHR ''-''" by (metis list.sel(1))
    then show ?thesis using hd_pad_no_minus by blast
  next
    case 3
    with eq have "zero_pad 6 (dec_digits (nat i)) = CHR ''-'' # zero_pad 5 (dec_digits (nat (- j)))"
      by (simp add: format_06d_def)
    then have "hd (zero_pad 6 (dec_digits (nat i))) = CHR ''-''" by (metis list.sel(1))
    then show ?thesis using hd_pad_no_minus by blast
  next
    case 4
    with eq have "zero_pad 6 (dec_digits (nat i)) = zero_pad 6 (dec_digits (nat j))"
      by (simp add: format_06d_def)
    then have "dec_value (zero_pad 6 (dec_digits (nat i)))
             = dec_value (zero_pad 6 (dec_digits (nat j)))"
      by simp
    then have "nat i = nat j" by (simp only: dec_value_pad)
    with 4 show ?thesis by simp
  qed
qed

lemma format_06d_width: "6 \<le> length (format_06d idx)"
proof (cases "idx < 0")
  case True
  have "5 \<le> length (zero_pad 5 (dec_digits (nat (- idx))))"
    by (simp add: zero_pad_def)
  with True show ?thesis by (simp add: format_06d_def)
next
  case False
  have "6 \<le> length (zero_pad 6 (dec_digits (nat idx)))"
    by (simp add: zero_pad_def)
  with False show ?thesis by (simp add: format_06d_def)
qed

text \<open>
  Claim C10. For every table name, dump mode, compression flag and chunk index, the name
  under which the dump writes a chunk (\<open>DumpManifest.chunk_filename\<close>) is the very string
  the restore builds for the same parameters; the extension is \<open>.sql\<close> or \<open>.sql.gz\<close> in
  insert mode and \<open>.csv\<close> or \<open>.csv.gz\<close> in any other mode; the index is rendered with at
  least six characters; and two different indices never give the same name.
\<close>

theorem chunk_filename_agrees:
  "chunk_filename m idx = restore_chunk_name (mf_table m) (mf_dump_mode m) (mf_compressed m) idx
   \<and> chunk_filename m idx = mf_table m @ ''_chunk_'' @ format_06d idx @
        (if mf_dump_mode m = ''insert''
         then (if mf_compressed m then ''.sql.gz'' else ''.sql'')
         else (if mf_compressed m then ''.csv.gz'' else ''.csv''))
   \<and> 6 \<le> length (format_06d idx)
   \<and> format_06d 7 = ''000007''
   \<and> (chunk_filename m idx = chunk_filename m idx' \<longleftrightarrow> idx = idx')
   \<and> (restore_chunk_name t d c idx = restore_chunk_name t d c idx' \<longleftrightarrow> idx = idx')"
proof -
  have a: "chunk_filename m idx
         = restore_chunk_name (mf_table m) (mf_dump_mode m) (mf_compressed m) idx"
    by (simp add: chunk_filename_def restore_chunk_name_def)
  have b: "chunk_filename m idx = mf_table m @ ''_chunk_'' @ format_06d idx @
        (if mf_dump_mode m = ''insert''
         then (if mf_compressed m then ''.sql.gz'' else ''.sql'')
         else (if mf_compressed m then ''.csv.gz'' else ''.csv''))"
    by (simp add: chunk_filename_def Let_def)
  have c: "format_06d 7 = ''000007''"
    by code_simp
  have d: "restore_chunk_name t d c idx = restore_chunk_name t d c idx' \<longleftrightarrow> idx = idx'"
    for t d c
    by (auto simp: restore_chunk_name_def Let_def dest: format_06d_inj)
  have e: "chunk_filename m idx = chunk_filename m idx' \<longleftrightarrow> idx = idx'"
    by (auto simp: chunk_filename_def Let_def dest: format_06d_inj)
  show ?thesis using a b c d e format_06d_width by blast
qed

theorem chunk_filename_agrees_witness:
  "chunk_filename \<lparr>mf_connection_name = ''prod'', mf_database = ''index'', mf_table = ''t'',
      mf_schema = ''public'', mf_columns = [''id'', ''s''], mf_pk_columns = [''id''],
      mf_chunk_rows = 2, mf_total_rows = 3, mf_chunks_completed = 0, mf_chunks_total = 2,
      mf_started_at = ''2024-01-01T00:00:00'', mf_finished_at = None, mf_compressed = False,
      mf_dump_mode = ''copy'', mf_has_schema = False\<rparr> 0
   = restore_chunk_name ''t'' ''copy'' False 0
   \<and> restore_chunk_name ''t'' ''copy'' False 0 = ''t_chunk_000000.csv''
   \<and> restore_chunk_name ''t'' ''insert'' True 0 \<noteq> restore_chunk_name ''t'' ''insert'' True 12"
proof -
  let ?m = "\<lparr>mf_connection_name = ''prod'', mf_database = ''index'', mf_table = ''t'',
      mf_schema = ''public'', mf_columns = [''id'', ''s''], mf_pk_columns = [''id''],
      mf_chunk_rows = 2, mf_total_rows = 3, mf_chunks_completed = 0, mf_chunks_total = 2,
      mf_started_at = ''2024-01-01T00:00:00'', mf_finished_at = None, mf_compressed = False,
      mf_dump_mode = ''copy'', mf_has_schema = False\<rparr>"
  have "restore_chunk_name ''t'' ''copy'' False 0 = ''t_chunk_000000.csv''"
    by code_simp
  moreover have "(0::int) \<noteq> 12" by simp
  ultimately show ?thesis
    using chunk_filename_agrees [where m = ?m and idx = 0 and idx' = 12 and t = "''t''"
        and d = "''insert''" and c = True]
    by simp
qed


section \<open>Batching of the INSERT statements\<close>

lemma insert_loop_batches:
  "insert_loop header n ls (map (\<lambda>b. insert_statement header (map row_sql b)) done, map row_sql batch)
   = (case batch_loop n ls (done, batch) of
        (done', batch') \<Rightarrow> (map (\<lambda>b. insert_statement header (map row_sql b)) done', map row_sql batch'))"
proof (induction ls arbitrary: "done" batch)
  case Nil
  show ?case by simp
next
  case (Cons l ls)
  show ?case
  proof (cases "int (length (batch @ [l])) \<ge> n")
    case True
    have "insert_loop header n (l # ls)
            (map (\<lambda>b. insert_statement header (map row_sql b)) done, map row_sql batch)
        = insert_loop header n ls
            (map (\<lambda>b. insert_statement header (map row_sql b)) (done @ [batch @ [l]]), map row_sql [])"
      using True by (simp add: Let_def)
    also have "\<dots> = (case batch_loop n ls (done @ [batch @ [l]], []) of
        (done', batch') \<Rightarrow> (map (\<lambda>b. insert_statement header (map row_sql b)) done', map row_sql batch'))"
      by (rule Cons.IH)
    finally show ?thesis using True by simp
  next
    case False
    have "insert_loop header n (l # ls)
            (map (\<lambda>b. insert_statement header (map row_sql b)) done, map row_sql batch)
        = insert_loop header n ls
            (map (\<lambda>b. insert_statement header (map row_sql b)) done, map row_sql (batch @ [l]))"
      using False by (simp add: Let_def)
    also have "\<dots> = (case batch_loop n ls (done, batch @ [l]) of
        (done', batch') \<Rightarrow> (map (\<lambda>b. insert_statement header (map row_sql b)) done', map row_sql batch'))"
      by (rule Cons.IH)
    finally show ?thesis using False by simp
  qed
qed

lemma batch_loop_inv:
  assumes "1 \<le> n" "int (length batch) < n" "\<forall>b \<in> set done. int (length b) = n"
    and "batch_loop n xs (done, batch) = (done', batch')"
  shows "int (length batch') < n \<and> (\<forall>b \<in> set done'. int (length b) = n)
         \<and> concat done' @ batch' = concat done @ batch @ xs"
  using assms
proof (induction xs arbitrary: "done" batch)
  case Nil
  then show ?case by simp
next
  case (Cons x xs)
  show ?case
  proof (cases "int (length (batch @ [x])) \<ge> n")
    case True
    with Cons.prems have eq: "int (length (batch @ [x])) = n" by simp
    from True Cons.prems(4) have "batch_loop n xs (done @ [batch @ [x]], []) = (done', batch')"
      by simp
    moreover have "int (length ([]::'a list)) < n" using Cons.prems(1) by simp
    moreover have "\<forall>b \<in> set (done @ [batch @ [x]]). int (length b) = n"
      using Cons.prems(3) eq by auto
    ultimately have "int (length batch') < n \<and> (\<forall>b \<in> set done'. int (length b) = n)
         \<and> concat done' @ batch' = concat (done @ [batch @ [x]]) @ [] @ xs"
      using Cons.IH [OF Cons.prems(1)] by blast
    then show ?thesis by simp
  next
    case False
    from False Cons.prems(4) have "batch_loop n xs (done, batch @ [x]) = (done', batch')"
      by simp
    moreover have "int (length (batch @ [x])) < n" using False by simp
    ultimately have "int (length batch') < n \<and> (\<forall>b \<in> set done'. int (length b) = n)
         \<and> concat done' @ batch' = concat done @ (batch @ [x]) @ xs"
      using Cons.IH [OF Cons.prems(1) _ Cons.prems(3)] by blast
    then show ?thesis by simp
  qed
qed

lemma batches_props:
  assumes n: "1 \<le> n"
  shows "concat (batches n xs) = xs"
    and "\<forall>b \<in> set (batches n xs). 1 \<le> length b \<and> int (length b) \<le> n"
    and "\<forall>b \<in> set (butlast (batches n xs)). int (length b) = n"
proof -
  obtain d b where db: "batch_loop n xs ([], []) = (d, b)" by (cases "batch_loop n xs ([], [])")
  have inv: "int (length b) < n \<and> (\<forall>x \<in> set d. int (length x) = n) \<and> concat d @ b = concat [] @ [] @ xs"
    using batch_loop_inv [OF n _ _ db] n by simp
  show "concat (batches n xs) = xs" using inv db by (auto simp: batches_def)
  show "\<forall>b \<in> set (batches n xs). 1 \<le> length b \<and> int (length b) \<le> n"
    using inv db n by (auto simp: batches_def Suc_le_eq)
  show "\<forall>b \<in> set (butlast (batches n xs)). int (length b) = n"
    using inv db by (auto simp: batches_def dest: in_set_butlastD)
qed

lemma copy_to_inserts_batches:
  "copy_to_inserts raw t cols n
   = join [NL, NL] (map (\<lambda>b. insert_statement (insert_header t cols) (map row_sql b))
                        (batches n (copy_lines raw)))"
proof (cases "raw = []")
  case True
  then show ?thesis by (simp add: copy_to_inserts_def batches_def copy_lines_def)
next
  case False
  obtain d b where db: "batch_loop n (copy_lines raw) ([], []) = (d, b)"
    by (cases "batch_loop n (copy_lines raw) ([], [])")
  have "insert_loop (insert_header t cols) n (copy_lines raw) ([], [])
        = (map (\<lambda>b. insert_statement (insert_header t cols) (map row_sql b)) d, map row_sql b)"
    using insert_loop_batches [of "insert_header t cols" n "copy_lines raw" "[]" "[]"] db by simp
  then show ?thesis using False db
    by (simp add: copy_to_inserts_def batches_def Let_def)
qed

lemma split_on_ne: "split_on sep s \<noteq> []"
  by (induction s) (auto split: list.splits)

lemma length_split_on: "length (split_on sep s) = Suc (count_list s sep)"
  by (induction s) (auto split: list.splits simp: split_on_ne)

lemma last_split_on: "(last (split_on sep s) = []) = (s = [] \<or> last s = sep)"
proof (induction s)
  case Nil
  show ?case by simp
next
  case (Cons c s)
  show ?case
  proof (cases "c = sep")
    case True
    then show ?thesis using Cons split_on_ne [of sep s] by auto
  next
    case False
    obtain w ws where w: "split_on sep s = w # ws"
      using split_on_ne [of sep s] by (cases "split_on sep s") auto
    show ?thesis
    proof (cases ws)
      case Nil
      with w have "count_list s sep = 0" using length_split_on [of sep s] by simp
      then have "sep \<notin> set s" by (simp add: count_list_0_iff)
      then have "last (c # s) \<noteq> sep" using False by (cases "s = []") auto
      moreover have "last (split_on sep (c # s)) \<noteq> []" using w Nil False by simp
      ultimately show ?thesis by simp
    next
      case (Cons a list)
      with w have "s \<noteq> []" by auto
      moreover have "last (split_on sep (c # s)) = last (split_on sep s)"
        using w Cons False by simp
      ultimately show ?thesis using Cons.IH by simp
    qed
  qed
qed

lemma length_copy_lines: "int (length (copy_lines raw)) = chunk_row_count raw"
  using last_split_on [of NL raw] split_on_ne [of NL raw]
  by (auto simp: copy_lines_def chunk_row_count_def Let_def length_split_on)

text \<open>
  Claim C8. For every input buffer and every \<open>insert_batch_size\<close> of at least 1, the text
  returned by \<open>_copy_to_inserts\<close> is the INSERT statements of consecutive batches of the
  input records, joined by blank lines: the batches taken in order are the records in
  order (none lost, none added, so the rows of all statements together are as many as the
  input records, which is the row count the dump computes for the buffer); every batch
  has at least one and at most \<open>insert_batch_size\<close> rows; and every batch but the last
  has exactly \<open>insert_batch_size\<close> rows.
\<close>

theorem copy_to_inserts_batching:
  assumes "1 \<le> batch_size"
  shows "copy_to_inserts raw t cols batch_size
           = join [NL, NL] (map (\<lambda>b. insert_statement (insert_header t cols) (map row_sql b))
                                (batches batch_size (copy_lines raw)))
       \<and> concat (batches batch_size (copy_lines raw)) = copy_lines raw
       \<and> (\<forall>b \<in> set (batches batch_size (copy_lines raw)).
             1 \<le> length b \<and> int (length b) \<le> batch_size)
       \<and> (\<forall>b \<in> set (butlast (batches batch_size (copy_lines raw))).
             int (length b) = batch_size)
       \<and> int (sum_list (map length (batches batch_size (copy_lines raw)))) = chunk_row_count raw"
proof -
  have "sum_list (map length (batches batch_size (copy_lines raw)))
        = length (concat (batches batch_size (copy_lines raw)))"
    by (simp add: length_concat)
  also have "\<dots> = length (copy_lines raw)"
    by (simp only: batches_props(1) [OF assms])
  finally have "int (sum_list (map length (batches batch_size (copy_lines raw))))
        = chunk_row_count raw"
    by (simp add: length_copy_lines)
  then show ?thesis
    using copy_to_inserts_batches batches_props [OF assms] by blast
qed

theorem copy_to_inserts_batching_witness:
  "(1::int) \<le> 2
   \<and> batches 2 (copy_lines (''a'' @ [NL] @ ''b'' @ [NL] @ ''c'' @ [NL])) = [[''a'', ''b''], [''c'']]
   \<and> copy_to_inserts (''a'' @ [NL] @ ''b'' @ [NL] @ ''c'' @ [NL]) ''t'' [''s''] 2
     = join [NL, NL]
         [insert_statement (insert_header ''t'' [''s'']) [row_sql ''a'', row_sql ''b''],
          insert_statement (insert_header ''t'' [''s'']) [row_sql ''c'']]
   \<and> chunk_row_count (''a'' @ [NL] @ ''b'' @ [NL] @ ''c'' @ [NL]) = 3"
proof -
  have h: "(1::int) \<le> 2" by simp
  have b: "batches 2 (copy_lines (''a'' @ [NL] @ ''b'' @ [NL] @ ''c'' @ [NL]))
           = [[''a'', ''b''], [''c'']]"
    by code_simp
  show ?thesis
    using copy_to_inserts_batching [OF h, of "''a'' @ [NL] @ ''b'' @ [NL] @ ''c'' @ [NL]" "''t''" "[''s'']"]
    unfolding b by simp
qed


section \<open>Layout of an insert-mode chunk\<close>

lemma if_app1: "(if c then p @ xs else p) = p @ (if c then xs else [])"
  by simp

lemma if_app2: "(if c then p @ xs else p @ ys) = p @ (if c then xs else ys)"
  by simp

text \<open>
  Claim C4, as amended. The lines of an insert-mode chunk are, in this order: the header
  comments; in the first chunk only, (1) the DROP TABLE statement exactly when
  \<open>drop_on_restore\<close> is set, (2) the schema DDL exactly when \<open>recreate_schema\<close> or
  \<open>drop_on_restore\<close> is set and a non-empty schema DDL is available, (3) the TRUNCATE
  statement exactly when \<open>truncate_before_restore\<close> is set and \<open>drop_on_restore\<close> is not,
  (4) one DROP INDEX statement for each saved index definition exactly when
  \<open>disable_indexes_on_restore\<close> is set; then BEGIN, the data and COMMIT; and, in the last
  chunk only, after the COMMIT, the saved CREATE INDEX statements when
  \<open>disable_indexes_on_restore\<close> is set.
\<close>

theorem build_sql_parts_layout:
  "build_sql_parts now copy_data table settings schema_ddl index_defs is_first is_last =
     [''-- dbtool dump: '' @ ti_name table, ''-- generated: '' @ now]
     @ (if is_first then [''-- chunk: 0 (first '' @ EM_DASH @ '' includes preamble)''] else [])
     @ (if is_last then [''-- chunk: last (includes epilogue)''] else [])
     @ ['''']
     @ (if is_first \<and> drop_on_restore settings
        then [''DROP TABLE IF EXISTS '' @ [DQ] @ ti_name table @ [DQ] @ '' CASCADE;'', '''']
        else [])
     @ (if is_first \<and> (recreate_schema settings \<or> drop_on_restore settings) \<and> truthy schema_ddl
        then [if recreate_schema settings then ''-- schema''
              else ''-- schema (required after DROP)'',
              the schema_ddl, '''']
        else [])
     @ (if is_first \<and> truncate_before_restore settings \<and> \<not> drop_on_restore settings
        then [''TRUNCATE TABLE '' @ [DQ] @ ti_name table @ [DQ] @ '' CASCADE;'', '''']
        else [])
     @ (if is_first \<and> disable_indexes_on_restore settings \<and> index_defs \<noteq> []
        then [''-- drop indexes for faster bulk load'']
             @ map (\<lambda>(idx_name, idx_defn). ''DROP INDEX IF EXISTS '' @ [DQ] @ idx_name @ [DQ] @ '';'')
                   index_defs
             @ ['''']
        else [])
     @ (if use_transactions settings then [''BEGIN;'', ''''] else [])
     @ [copy_to_inserts copy_data (ti_name table) (ti_columns table) (insert_batch_size settings)]
     @ (if use_transactions settings then [''COMMIT;'', ''''] else [])
     @ (if is_last \<and> disable_indexes_on_restore settings \<and> index_defs \<noteq> []
        then [''-- rebuild indexes'']
             @ map (\<lambda>(idx_name, idx_defn). idx_defn @ '';'') index_defs
             @ ['''']
        else [])"
  by (cases is_first; cases "recreate_schema settings"; cases "drop_on_restore settings";
      cases "truthy schema_ddl")
     (simp_all add: build_sql_parts_def Let_def if_app1 if_app2 split del: if_split)

theorem build_sql_parts_layout_witness:
  "build_sql_parts ''2024-01-01T00:00:00'' (''1'' @ [TAB] @ ''a'' @ [NL])
     \<lparr>ti_schema = ''public'', ti_name = ''t'', ti_row_estimate = 1, ti_size_bytes = 0,
      ti_total_size_bytes = 0, ti_columns = [''id'', ''s''], ti_pk_columns = [''id'']\<rparr>
     \<lparr>dump_dir = ''dumps'', chunk_rows = 2, compress = False, compress_level = 6,
      dump_mode = ''insert'', dump_schema = True, insert_batch_size = 2,
      use_transactions = True, truncate_before_restore = True, drop_on_restore = True,
      recreate_schema = False, disable_indexes_on_restore = True, max_retries = 3,
      retry_backoff = 2\<rparr>
     (Some ''CREATE TABLE t ();'') [(''i1'', ''CREATE INDEX i1 ON t (s)'')] True True
   = [''-- dbtool dump: t'', ''-- generated: 2024-01-01T00:00:00'',
      ''-- chunk: 0 (first '' @ EM_DASH @ '' includes preamble)'',
      ''-- chunk: last (includes epilogue)'', '''',
      ''DROP TABLE IF EXISTS '' @ [DQ] @ ''t'' @ [DQ] @ '' CASCADE;'', '''',
      ''-- schema (required after DROP)'', ''CREATE TABLE t ();'', '''',
      ''-- drop indexes for faster bulk load'',
      ''DROP INDEX IF EXISTS '' @ [DQ] @ ''i1'' @ [DQ] @ '';'', '''',
      ''BEGIN;'', '''',
      copy_to_inserts (''1'' @ [TAB] @ ''a'' @ [NL]) ''t'' [''id'', ''s''] 2,
      ''COMMIT;'', '''',
      ''-- rebuild indexes'', ''CREATE INDEX i1 ON t (s);'', '''']"
  by (simp add: build_sql_parts_layout truthy_def)

text \<open>
  The claim as first stated does not hold: with \<open>drop_on_restore\<close> set, \<open>recreate_schema\<close>
  not set and no schema DDL at hand (\<open>dump_schema\<close> off, or the DDL could not be read),
  the first chunk drops the table and holds no schema DDL.
\<close>

theorem build_sql_parts_drop_without_ddl:
  "build_sql_parts ''2024-01-01T00:00:00'' (''1'' @ [TAB] @ ''a'' @ [NL])
     \<lparr>ti_schema = ''public'', ti_name = ''t'', ti_row_estimate = 1, ti_size_bytes = 0,
      ti_total_size_bytes = 0, ti_columns = [''id'', ''s''], ti_pk_columns = [''id'']\<rparr>
     \<lparr>dump_dir = ''dumps'', chunk_rows = 2, compress = False, compress_level = 6,
      dump_mode = ''insert'', dump_schema = False, insert_batch_size = 2,
      use_transactions = True, truncate_before_restore = True, drop_on_restore = True,
      recreate_schema = False, disable_indexes_on_restore = False, max_retries = 3,
      retry_backoff = 2\<rparr>
     None [] True False
   = [''-- dbtool dump: t'', ''-- generated: 2024-01-01T00:00:00'',
      ''-- chunk: 0 (first '' @ EM_DASH @ '' includes preamble)'', '''',
      ''DROP TABLE IF EXISTS '' @ [DQ] @ ''t'' @ [DQ] @ '' CASCADE;'', '''',
      ''BEGIN;'', '''',
      copy_to_inserts (''1'' @ [TAB] @ ''a'' @ [NL]) ''t'' [''id'', ''s''] 2,
      ''COMMIT;'', '''']"
  by (simp add: build_sql_parts_def Let_def truthy_def)


section \<open>The dump pipeline: chunk count and order of the writes\<close>

lemma ceil_div_bounds:
  fixes n c :: int
  assumes "0 < c"
  shows "n \<le> ((n + c - 1) div c) * c" and "((n + c - 1) div c - 1) * c < n"
proof -
  define z where "z = (n + c - 1) div c"
  define r where "r = (n + c - 1) mod c"
  have e: "n + c - 1 = z * c + r" by (simp add: z_def r_def)
  have r: "0 \<le> r" "r < c" using assms by (simp_all add: r_def)
  have "z * c = n + c - 1 - r" using e by simp
  then show "n \<le> ((n + c - 1) div c) * c" using r by (simp add: z_def)
  have "(z - 1) * c = z * c - c" by (simp add: algebra_simps)
  also have "\<dots> = n - 1 - r" using e by simp
  finally show "((n + c - 1) div c - 1) * c < n" using r by (simp add: z_def)
qed

lemma ceil_div_real:
  fixes n c :: int
  assumes "0 < c"
  shows "(n + c - 1) div c = \<lceil>real_of_int n / real_of_int c\<rceil>"
proof -
  define z where "z = (n + c - 1) div c"
  have c: "0 < real_of_int c" using assms by simp
  have "real_of_int n \<le> real_of_int (z * c)"
    using ceil_div_bounds(1) [OF assms, of n] unfolding z_def by linarith
  then have up: "real_of_int n / real_of_int c \<le> real_of_int z"
    using c by (simp add: pos_divide_le_eq)
  have "real_of_int ((z - 1) * c) < real_of_int n"
    using ceil_div_bounds(2) [OF assms, of n] unfolding z_def by linarith
  then have lo: "real_of_int z - 1 < real_of_int n / real_of_int c"
    using c by (simp add: pos_less_divide_eq)
  show ?thesis unfolding z_def [symmetric] using up lo by (simp add: ceiling_unique)
qed

lemma dump_loop_only_completed:
  "dump_loop env table settings ddl idx start ct manifest i = (evs, r) \<Longrightarrow>
   (\<forall>m \<in> set (manifests_written evs). m = manifest\<lparr>mf_chunks_completed := mf_chunks_completed m\<rparr>)
   \<and> (\<forall>m' j. r = Inr (m', j) \<longrightarrow> m' = manifest\<lparr>mf_chunks_completed := mf_chunks_completed m'\<rparr>)"
proof (induction env table settings ddl idx start ct manifest i arbitrary: evs r
       rule: dump_loop.induct)
  case (1 env table settings ddl idx start ct manifest i)
  show ?case
  proof (cases "i < ct \<and> \<not> de_interrupted env i")
    case False
    with "1.prems" show ?thesis by (auto simp: dump_loop.simps)
  next
    case True
    note run = True
    show ?thesis
    proof (cases "de_copy env (chunk_rows settings) (i * chunk_rows settings)")
      case (Inl e)
      with run "1.prems" show ?thesis
        by (cases e) (auto simp: dump_loop.simps [of _ _ _ _ _ _ _ _ i])
    next
      case (Inr raw)
      show ?thesis
      proof (cases "de_write env (chunk_filename manifest i)")
        case (Some p)
        with run Inr "1.prems" show ?thesis
          by (auto simp: dump_loop.simps [of _ _ _ _ _ _ _ _ i] Let_def)
      next
        case None
        obtain evs' r' where rec: "dump_loop env table settings ddl idx start ct
            (manifest\<lparr>mf_chunks_completed := i + 1\<rparr>) (i + 1) = (evs', r')"
          by (cases "dump_loop env table settings ddl idx start ct
            (manifest\<lparr>mf_chunks_completed := i + 1\<rparr>) (i + 1)")
        have ih: "(\<forall>m \<in> set (manifests_written evs').
                     m = manifest\<lparr>mf_chunks_completed := i + 1\<rparr>\<lparr>mf_chunks_completed := mf_chunks_completed m\<rparr>)
          \<and> (\<forall>m' j. r' = Inr (m', j) \<longrightarrow>
                     m' = manifest\<lparr>mf_chunks_completed := i + 1\<rparr>\<lparr>mf_chunks_completed := mf_chunks_completed m'\<rparr>)"
          using "1.IH" [OF run refl refl Inr refl None refl rec] .
        have evs: "evs = ChunkWritten (chunk_filename manifest i)
                      (chunk_payload env table settings ddl idx start ct i raw)
                    # ManifestWritten (manifest\<lparr>mf_chunks_completed := i + 1\<rparr>) # evs'"
          and r: "r = r'"
          using run Inr None rec "1.prems"
          by (auto simp: dump_loop.simps [of _ _ _ _ _ _ _ _ i] Let_def)
        show ?thesis using ih unfolding evs r by auto
      qed
    qed
  qed
qed





lemma chunk_filename_completed [simp]:
  "chunk_filename (m\<lparr>mf_chunks_completed := c\<rparr>) idx = chunk_filename m idx"
  by (simp add: chunk_filename_def)


lemma manifests_written_append:
  "manifests_written (a @ b) = manifests_written a @ manifests_written b"
  by (induction a rule: manifests_written.induct) simp_all

lemma chunks_written_append: "chunks_written (a @ b) = chunks_written a @ chunks_written b"
  by (induction a rule: chunks_written.induct) simp_all

lemma schema_step_quiet:
  "dump_schema_step env settings = (ev, ddl, hs) \<Longrightarrow>
   manifests_written ev = [] \<and> chunks_written ev = []"
  by (auto simp: dump_schema_step_def split: if_splits option.splits)

lemma index_step_quiet:
  "dump_index_step env settings = (ev, defs) \<Longrightarrow>
   manifests_written ev = [] \<and> chunks_written ev = []"
  by (auto simp: dump_index_step_def split: if_splits option.splits)



text \<open>The shape of a run of \<open>dump_from\<close>.\<close>

lemma dump_from_cases:
  assumes "dump_from env db_cfg dbname table settings start = (events, r)"
  obtains
    (no_loop) before where "events = before" "manifests_written before = []"
      "chunks_written before = []" "r \<noteq> Inr ()"
      "\<not> de_connect_ok env \<or> (\<exists>e. de_count env = Inl e)
         \<or> (chunk_rows settings = 0 \<and> de_count env \<noteq> Inr 0)"
  | (empty) before hs where "de_connect_ok env" "de_count env = Inr 0"
      "events = before @ [Connected, Printed EmptyTable,
          ManifestWritten (make_manifest (de_now env) db_cfg dbname table settings 0 0 0 hs True),
          Closed]"
      "manifests_written before = []" "chunks_written before = []" "r = Inr ()"
  | (loop) before ddl hs defs n loop_events lr after where
      "de_connect_ok env" "de_count env = Inr n" "n \<noteq> 0" "chunk_rows settings \<noteq> 0"
      "dump_loop env table settings ddl defs start ((n + chunk_rows settings - 1) div chunk_rows settings)
         (make_manifest (de_now env) db_cfg dbname table settings n start
            ((n + chunk_rows settings - 1) div chunk_rows settings) hs False) start
       = (loop_events, lr)"
      "events = before @ [Connected] @ loop_events @ after"
      "manifests_written before = []" "chunks_written before = []"
      "chunks_written after = []"
      "case lr of
         Inl e \<Rightarrow> manifests_written after = [] \<and> r = Inl e
       | Inr (m, i) \<Rightarrow> r = Inr () \<and>
           (if de_interrupted_end env then manifests_written after = []
            else manifests_written after = [m\<lparr>mf_finished_at := Some (de_now_finished env)\<rparr>])"
proof -
  obtain ev1 ddl hs where s1: "dump_schema_step env settings = (ev1, ddl, hs)"
    by (cases "dump_schema_step env settings") auto
  obtain ev2 defs where s2: "dump_index_step env settings = (ev2, defs)"
    by (cases "dump_index_step env settings") auto
  define before where "before = (if start > 0 then [Printed (Resuming start)] else []) @ ev1 @ ev2"
  have q: "manifests_written before = []" "chunks_written before = []"
    using schema_step_quiet [OF s1] index_step_quiet [OF s2]
    by (simp_all add: before_def manifests_written_append chunks_written_append)
  note d = assms [unfolded dump_from_def s1 s2 prod.case Let_def, folded before_def]
  show ?thesis
  proof (cases "de_connect_ok env")
    case False
    with d have "events = before" "r = Inl Exception" by auto
    with q False show ?thesis by (intro no_loop [of before]) auto
  next
    case conn: True
    show ?thesis
    proof (cases "de_count env")
      case (Inl e)
      with conn d have "events = before @ [Connected, Printed (if e = Exception then Failed else ForceStopped), Closed]"
        "r = Inl e"
        by (cases e; auto)+
      with q Inl show ?thesis
        by (intro no_loop [of "before @ [Connected, Printed (if e = Exception then Failed else ForceStopped), Closed]"])
           (auto simp: manifests_written_append chunks_written_append)
    next
      case (Inr n)
      show ?thesis
      proof (cases "n = 0")
        case True
        with conn Inr d have "events = before @ [Connected, Printed EmptyTable,
          ManifestWritten (make_manifest (de_now env) db_cfg dbname table settings 0 0 0 hs True),
          Closed]" "r = Inr ()"
          by simp_all
        with conn Inr True q show ?thesis by (intro empty [of before hs]) auto
      next
        case nz: False
        show ?thesis
        proof (cases "chunk_rows settings = 0")
          case True
          with conn Inr nz d have "events = before @ [Connected, Printed Failed, Closed]" "r = Inl Exception"
            by simp_all
          with q True Inr nz show ?thesis
            by (intro no_loop [of "before @ [Connected, Printed Failed, Closed]"])
               (auto simp: manifests_written_append chunks_written_append)
        next
          case cz: False
          let ?ct = "(n + chunk_rows settings - 1) div chunk_rows settings"
          let ?m = "make_manifest (de_now env) db_cfg dbname table settings n start ?ct hs False"
          obtain le lr where l: "dump_loop env table settings ddl defs start ?ct ?m start = (le, lr)"
            by (cases "dump_loop env table settings ddl defs start ?ct ?m start") auto
          show ?thesis
          proof (cases lr)
            case (Inl e)
            have "events = before @ [Connected] @ le @ [Printed (if e = Exception then Failed else ForceStopped), Closed]"
              "r = Inl e"
              using d conn \<open>de_count env = Inr n\<close> nz cz by (cases e; simp add: l Inl)+
            then show ?thesis using conn \<open>de_count env = Inr n\<close> nz cz l q Inl
              by (intro loop [of n ddl defs hs le lr before
                    "[Printed (if e = Exception then Failed else ForceStopped), Closed]"]) auto
          next
            case (Inr mi)
            obtain m i where mi: "mi = (m, i)" by (cases mi)
            show ?thesis
            proof (cases "de_interrupted_end env")
              case True
              have "events = before @ [Connected] @ le @ [Printed (Paused i ?ct), Closed]"
                "r = Inr ()"
                using d conn \<open>de_count env = Inr n\<close> nz cz True by (simp_all add: l Inr mi)
              then show ?thesis using conn \<open>de_count env = Inr n\<close> nz cz l q Inr mi True
                by (intro loop [of n ddl defs hs le lr before "[Printed (Paused i ?ct), Closed]"]) auto
            next
              case False
              have "events = before @ [Connected] @ le
                 @ [ManifestWritten (m\<lparr>mf_finished_at := Some (de_now_finished env)\<rparr>),
                    Printed (Success i), Closed]"
                "r = Inr ()"
                using d conn \<open>de_count env = Inr n\<close> nz cz False by (simp_all add: l Inr mi)
              then show ?thesis using conn \<open>de_count env = Inr n\<close> nz cz l q Inr mi False
                by (intro loop [of n ddl defs hs le lr before
                     "[ManifestWritten (m\<lparr>mf_finished_at := Some (de_now_finished env)\<rparr>),
                       Printed (Success i), Closed]"]) auto
            qed
          qed
        qed
      qed
    qed
  qed
qed


lemma dump_from_chunks_total:
  assumes run: "dump_from env db_cfg dbname table settings start = (events, r)"
    and n: "de_count env = Inr n" "n \<noteq> 0" "chunk_rows settings \<noteq> 0"
    and m: "m \<in> set (manifests_written events)"
  shows "mf_total_rows m = n
       \<and> mf_chunks_total m = (n + chunk_rows settings - 1) div chunk_rows settings"
  using run
proof (cases rule: dump_from_cases)
  case (no_loop before)
  with m show ?thesis by simp
next
  case (empty before hs)
  with n show ?thesis by simp
next
  case (loop before ddl hs defs n' le lr after)
  let ?ct = "(n + chunk_rows settings - 1) div chunk_rows settings"
  let ?m0 = "make_manifest (de_now env) db_cfg dbname table settings n start ?ct hs False"
  from loop(2) n have n': "n' = n" by simp
  note only = dump_loop_only_completed [OF loop(5) [unfolded n']]
  have base: "mf_total_rows ?m0 = n" "mf_chunks_total ?m0 = ?ct"
    by (simp_all add: make_manifest_def)
  from m loop(6,7) have "m \<in> set (manifests_written le) \<or> m \<in> set (manifests_written after)"
    by (simp add: manifests_written_append)
  then show ?thesis
  proof
    assume "m \<in> set (manifests_written le)"
    with only have "m = ?m0\<lparr>mf_chunks_completed := mf_chunks_completed m\<rparr>" by blast
    then have "mf_total_rows m = mf_total_rows ?m0" "mf_chunks_total m = mf_chunks_total ?m0"
      by (metis DumpManifest.select_convs DumpManifest.surjective DumpManifest.update_convs(9))+
    with base show ?thesis by simp
  next
    assume a: "m \<in> set (manifests_written after)"
    show ?thesis
    proof (cases lr)
      case (Inl e)
      with loop(10) a show ?thesis by simp
    next
      case (Inr mi)
      obtain m' i where mi: "mi = (m', i)" by (cases mi)
      from loop(10) Inr mi a have m': "m = m'\<lparr>mf_finished_at := Some (de_now_finished env)\<rparr>"
        by (cases "de_interrupted_end env") simp_all
      from only Inr mi have "m' = ?m0\<lparr>mf_chunks_completed := mf_chunks_completed m'\<rparr>" by blast
      then have "mf_total_rows m' = mf_total_rows ?m0" "mf_chunks_total m' = mf_chunks_total ?m0"
        by (metis DumpManifest.select_convs DumpManifest.surjective DumpManifest.update_convs(9))+
      with base m' show ?thesis by simp
    qed
  qed
qed


lemma example_run:
  "dump_table example_env example_cfg ''index'' example_table example_settings True None
   = ([Connected,
       ChunkWritten ''t_chunk_000000.csv'' (''1'' @ [TAB] @ ''a'' @ [NL] @ ''2'' @ [TAB] @ ''b'' @ [NL]),
       ManifestWritten (example_manifest 1 None),
       ChunkWritten ''t_chunk_000001.csv'' (''3'' @ [TAB] @ ''c'' @ [NL]),
       ManifestWritten (example_manifest 2 None),
       ManifestWritten (example_manifest 2 (Some ''2024-01-01T00:00:02'')),
       Printed (Success 2), Closed],
      Inr ())"
  by code_simp

lemma example_empty_run:
  "dump_table (example_env\<lparr>de_count := Inr 0\<rparr>) example_cfg ''index'' example_table
     example_settings True None
   = ([Connected, Printed EmptyTable,
       ManifestWritten
         ((example_manifest 0 (Some ''2024-01-01T00:00:00''))
            \<lparr>mf_total_rows := 0, mf_chunks_total := 0\<rparr>),
       Closed],
      Inr ())"
  by code_simp

text \<open>
  Claim C5. In every run of \<open>dump_table\<close>: when the row count is positive (and
  \<open>chunk_rows\<close> is at least 1), every manifest the run writes records that count as
  \<open>total_rows\<close> and \<open>chunks_total = (total_rows + chunk_rows - 1) // chunk_rows\<close>, which
  is the ceiling of \<open>total_rows / chunk_rows\<close>, and a run that ends normally without an
  interrupt has written a manifest; when the row count is 0 (the table directory holds
  no finished manifest to skip on, and the connection opens) the run writes exactly one
  manifest, with \<open>total_rows\<close>, \<open>chunks_total\<close> and \<open>chunks_completed\<close> all 0 and
  \<open>finished_at\<close> set, writes no chunk file, and returns.
\<close>

theorem dump_chunks_total:
  assumes run: "dump_table env db_cfg dbname table settings resume existing = (events, r)"
  shows "(\<forall>n. de_count env = Inr n \<and> 0 < n \<and> 1 \<le> chunk_rows settings \<longrightarrow>
            (\<forall>m \<in> set (manifests_written events).
               mf_total_rows m = n
               \<and> mf_chunks_total m = (n + chunk_rows settings - 1) div chunk_rows settings
               \<and> mf_chunks_total m = \<lceil>real_of_int n / real_of_int (chunk_rows settings)\<rceil>)
            \<and> (r = Inr () \<and> \<not> de_interrupted_end env
                 \<and> \<not> (resume \<and> (\<exists>ex. existing = Some ex \<and> truthy (mf_finished_at ex)))
               \<longrightarrow> manifests_written events \<noteq> []))
       \<and> (de_count env = Inr 0 \<and> de_connect_ok env
            \<and> \<not> (resume \<and> (\<exists>ex. existing = Some ex \<and> truthy (mf_finished_at ex)))
          \<longrightarrow> r = Inr () \<and> chunks_written events = []
              \<and> (\<exists>m. manifests_written events = [m] \<and> mf_total_rows m = 0
                       \<and> mf_chunks_total m = 0 \<and> mf_chunks_completed m = 0
                       \<and> mf_finished_at m = Some (de_now env)))"
proof -
  define skipped where
    "skipped = (resume \<and> (\<exists>ex. existing = Some ex \<and> truthy (mf_finished_at ex)))"
  have skip: "events = [Printed SkipCompleted]" if skipped
    using that run by (auto simp: skipped_def dump_table_def)
  obtain start where body: "\<not> skipped \<Longrightarrow> dump_from env db_cfg dbname table settings start = (events, r)"
    using run by (auto simp: skipped_def dump_table_def split: option.splits if_splits)
  have A: "mf_total_rows m = n
           \<and> mf_chunks_total m = (n + chunk_rows settings - 1) div chunk_rows settings
           \<and> mf_chunks_total m = \<lceil>real_of_int n / real_of_int (chunk_rows settings)\<rceil>"
    if n: "de_count env = Inr n" "0 < n" "1 \<le> chunk_rows settings"
      and m: "m \<in> set (manifests_written events)" for n m
  proof -
    from m skip have ns: "\<not> skipped" by auto
    have "mf_total_rows m = n
           \<and> mf_chunks_total m = (n + chunk_rows settings - 1) div chunk_rows settings"
      using dump_from_chunks_total [OF body [OF ns] n(1) _ _ m] n(2,3) by simp
    moreover have "(n + chunk_rows settings - 1) div chunk_rows settings
        = \<lceil>real_of_int n / real_of_int (chunk_rows settings)\<rceil>"
      using n(3) by (intro ceil_div_real) simp
    ultimately show ?thesis by simp
  qed
  have A2: "manifests_written events \<noteq> []"
    if n: "de_count env = Inr n" "0 < n" "1 \<le> chunk_rows settings"
      and ok: "r = Inr ()" "\<not> de_interrupted_end env" "\<not> skipped" for n
    using body [OF ok(3)]
  proof (cases rule: dump_from_cases)
    case (no_loop before)
    with ok show ?thesis by simp
  next
    case (empty before hs)
    with n show ?thesis by simp
  next
    case (loop before ddl hs defs n' le lr after)
    show ?thesis
    proof (cases lr)
      case (Inl e)
      with loop(10) ok show ?thesis by simp
    next
      case (Inr mi)
      with loop(10) ok(2) have "manifests_written after \<noteq> []" by (cases mi) simp
      then show ?thesis unfolding loop(6) by (simp add: manifests_written_append)
    qed
  qed
  have B: "r = Inr () \<and> chunks_written events = []
              \<and> (\<exists>m. manifests_written events = [m] \<and> mf_total_rows m = 0
                       \<and> mf_chunks_total m = 0 \<and> mf_chunks_completed m = 0
                       \<and> mf_finished_at m = Some (de_now env))"
    if z: "de_count env = Inr 0" "de_connect_ok env" "\<not> skipped"
    using body [OF z(3)]
  proof (cases rule: dump_from_cases)
    case (no_loop before)
    from z(1,2) no_loop(5) show ?thesis by simp
  next
    case (empty before hs)
    from empty(3,4,5,6) show ?thesis
      by (simp add: manifests_written_append chunks_written_append make_manifest_def)
  next
    case (loop before ddl hs defs n' le lr after)
    from z(1) loop(2,3) show ?thesis by simp
  qed
  have P1: "\<forall>m \<in> set (manifests_written events).
               mf_total_rows m = n
               \<and> mf_chunks_total m = (n + chunk_rows settings - 1) div chunk_rows settings
               \<and> mf_chunks_total m = \<lceil>real_of_int n / real_of_int (chunk_rows settings)\<rceil>"
    if "de_count env = Inr n \<and> 0 < n \<and> 1 \<le> chunk_rows settings" for n
    using A that by blast
  have P2: "manifests_written events \<noteq> []"
    if "de_count env = Inr n \<and> 0 < n \<and> 1 \<le> chunk_rows settings"
       "r = Inr () \<and> \<not> de_interrupted_end env \<and> \<not> skipped" for n
    using A2 that by blast
  have P3: "r = Inr () \<and> chunks_written events = []
              \<and> (\<exists>m. manifests_written events = [m] \<and> mf_total_rows m = 0
                       \<and> mf_chunks_total m = 0 \<and> mf_chunks_completed m = 0
                       \<and> mf_finished_at m = Some (de_now env))"
    if "de_count env = Inr 0 \<and> de_connect_ok env \<and> \<not> skipped"
    using B that by blast
  show ?thesis
    unfolding skipped_def [symmetric]
    apply (intro conjI allI impI)
    subgoal by (rule P1)
    subgoal by (rule P2)
    subgoal using P3 by simp
    subgoal using P3 by simp
    subgoal using P3 by simp
    done
qed

theorem dump_chunks_total_witness:
  "de_count example_env = Inr 3 \<and> (0::int) < 3 \<and> 1 \<le> chunk_rows example_settings
   \<and> map mf_chunks_total
         (manifests_written
            (fst (dump_table example_env example_cfg ''index'' example_table example_settings
                    True None)))
       = [2, 2, 2]
   \<and> \<lceil>real_of_int 3 / real_of_int (chunk_rows example_settings)\<rceil> = 2
   \<and> de_count (example_env\<lparr>de_count := Inr 0\<rparr>) = Inr 0
   \<and> de_connect_ok (example_env\<lparr>de_count := Inr 0\<rparr>)
   \<and> chunks_written
         (fst (dump_table (example_env\<lparr>de_count := Inr 0\<rparr>) example_cfg ''index''
                 example_table example_settings True None))
       = []
   \<and> map mf_finished_at
         (manifests_written
            (fst (dump_table (example_env\<lparr>de_count := Inr 0\<rparr>) example_cfg ''index''
                    example_table example_settings True None)))
       = [Some ''2024-01-01T00:00:00'']"
proof -
  have c: "\<lceil>real_of_int 3 / real_of_int (chunk_rows example_settings)\<rceil> = 2"
    by (simp add: example_settings_def ceiling_eq_iff)
  have h: "de_count example_env = Inr 3 \<and> (0::int) < 3 \<and> 1 \<le> chunk_rows example_settings"
    by (simp add: example_env_def example_settings_def)
  have "\<forall>m \<in> set (manifests_written
            (fst (dump_table example_env example_cfg ''index'' example_table example_settings
                    True None))).
          mf_chunks_total m = \<lceil>real_of_int 3 / real_of_int (chunk_rows example_settings)\<rceil>"
    using dump_chunks_total [OF example_run] h by (simp add: example_run)
  then have a: "map mf_chunks_total
         (manifests_written
            (fst (dump_table example_env example_cfg ''index'' example_table example_settings
                    True None)))
       = [2, 2, 2]"
    unfolding c by (simp add: example_run)
  have z: "de_count (example_env\<lparr>de_count := Inr 0\<rparr>) = Inr 0
           \<and> de_connect_ok (example_env\<lparr>de_count := Inr 0\<rparr>)"
    by (simp add: example_env_def)
  have b: "chunks_written
         (fst (dump_table (example_env\<lparr>de_count := Inr 0\<rparr>) example_cfg ''index''
                 example_table example_settings True None))
       = []"
    using dump_chunks_total [OF example_empty_run] z by (simp add: example_empty_run)
  have d: "map mf_finished_at
         (manifests_written
            (fst (dump_table (example_env\<lparr>de_count := Inr 0\<rparr>) example_cfg ''index''
                    example_table example_settings True None)))
       = [Some ''2024-01-01T00:00:00'']"
    by (simp add: example_empty_run example_manifest_def)
  show ?thesis using a b c d h z by blast
qed




section \<open>The restore pipeline\<close>

subsection \<open>The setting \<open>use_transactions\<close> is not read\<close>








subsection \<open>A dump of an empty table\<close>

text \<open>
  Claim C7. For every manifest whose \<open>total_rows\<close> is 0, \<open>restore_table\<close> only reports the
  empty dump and returns: it opens no connection, runs no pre-restore step, applies no
  chunk and does not write \<open>restore_state.json\<close>.
\<close>

theorem restore_empty_dump:
  assumes "re_manifest env = Some manifest" and "mf_total_rows manifest = 0"
  shows "restore_table env db_cfg dbname settings = ([Say EmptyDump], Inr ())
       \<and> connections (fst (restore_table env db_cfg dbname settings)) = 0
       \<and> states_written (fst (restore_table env db_cfg dbname settings)) = []"
  using assms by (simp add: restore_table_def)

theorem restore_empty_dump_witness:
  "re_manifest
     (example_restore_env
        \<lparr>re_manifest := Some ((example_manifest 0 (Some ''2024-01-01T00:00:00''))
                                \<lparr>mf_total_rows := 0, mf_chunks_total := 0\<rparr>)\<rparr>)
     = Some ((example_manifest 0 (Some ''2024-01-01T00:00:00''))
               \<lparr>mf_total_rows := 0, mf_chunks_total := 0\<rparr>)
   \<and> mf_total_rows ((example_manifest 0 (Some ''2024-01-01T00:00:00''))
                       \<lparr>mf_total_rows := 0, mf_chunks_total := 0\<rparr>) = 0
   \<and> restore_table
         (example_restore_env
            \<lparr>re_manifest := Some ((example_manifest 0 (Some ''2024-01-01T00:00:00''))
                                    \<lparr>mf_total_rows := 0, mf_chunks_total := 0\<rparr>)\<rparr>)
         example_cfg ''index'' example_settings
       = ([Say EmptyDump], Inr ())"
proof -
  let ?m = "(example_manifest 0 (Some ''2024-01-01T00:00:00''))
              \<lparr>mf_total_rows := 0, mf_chunks_total := 0\<rparr>"
  have a: "re_manifest (example_restore_env\<lparr>re_manifest := Some ?m\<rparr>) = Some ?m" by simp
  have b: "mf_total_rows ?m = 0" by simp
  show ?thesis
    using restore_empty_dump [OF a b, of example_cfg "''index''" example_settings] a b by simp
qed


subsection \<open>Retries of a chunk\<close>















section \<open>The escaping law of the copy-to-insert conversion\<close>




lemma replace_pair_hit:
  "bytes_replace [a, b] new (a # b # cs) = new @ bytes_replace [a, b] new cs"
  by simp














































section \<open>Writing the manifest\<close>

text \<open>
  Claim C2, as amended. Every write of the dump manifest serialises the whole document,
  indented by 2, and writes it to the manifest path itself: the file is first truncated
  and then holds the complete new document when the write returns; no temporary file is
  created and no other path changes.
\<close>

theorem write_manifest_in_place:
  "write_manifest path manifest fs
     = [fs(path \<mapsto> Plain_text []), fs(path \<mapsto> Json_text manifest 2)]
   \<and> last (write_manifest path manifest fs) path = Some (json_dumps manifest 2)
   \<and> (\<forall>state \<in> set (write_manifest path manifest fs). \<forall>p. p \<noteq> path \<longrightarrow> state p = fs p)"
  by (simp add: write_manifest_def write_text_def json_dumps_def)

theorem write_manifest_in_place_witness:
  "observed ''manifest.json'' (write_manifest ''manifest.json'' (example_manifest 2 None) example_fs)
     = [Some (Plain_text []), Some (Json_text (example_manifest 2 None) 2)]
   \<and> last (write_manifest ''manifest.json'' (example_manifest 2 None) example_fs) ''manifest.json''
     = Some (Json_text (example_manifest 2 None) 2)
   \<and> observed ''schema.sql''
        (write_manifest ''manifest.json'' (example_manifest 2 None) example_fs)
     = [None, None]"
proof -
  note t = write_manifest_in_place [of "''manifest.json''" "example_manifest 2 None" example_fs]
  have a: "''schema.sql'' \<noteq> ''manifest.json''" by simp
  have b: "example_fs ''schema.sql'' = None" by (simp add: example_fs_def)
  show ?thesis using t a b by (simp add: observed_def json_dumps_def)
qed

text \<open>
  The claim as first stated does not hold: there is no temporary file and no rename, and
  between the truncation and the write a reader of \<open>manifest.json\<close> sees an empty file,
  which is neither the old contents nor the new.
\<close>

theorem write_manifest_not_atomic:
  "example_fs ''manifest.json'' = Some (Json_text (example_manifest 1 None) 2)
   \<and> observed ''manifest.json''
        (write_manifest ''manifest.json'' (example_manifest 2 None) example_fs)
     = [Some (Plain_text []), Some (Json_text (example_manifest 2 None) 2)]
   \<and> Some (Plain_text []) \<noteq> Some (Json_text (example_manifest 1 None) 2)
   \<and> Some (Plain_text []) \<noteq> Some (Json_text (example_manifest 2 None) 2)
   \<and> observed ''manifest.json.tmp''
        (write_manifest ''manifest.json'' (example_manifest 2 None) example_fs)
     = [None, None]"
  by (simp add: example_fs_def observed_def write_manifest_def write_text_def json_dumps_def)

end
